theory Spec2Isabelle
  imports Complex_Main "HOL-Library.Word" "HOL-Library.Sublist"
begin

unbundle bit_operations_syntax

section \<open>JavaScript values used by the pipeline\<close>

text \<open>
  A JavaScript string is a sequence of 16-bit code units; \<open>charCodeAt\<close> reads one of
  them as a number between 0 and 65535. String literals of the source are written with
  \<open>js\<close>, which maps each Latin-1 character to its code unit.
\<close>

type_synonym jsstring = "16 word list"

definition js :: "string \<Rightarrow> jsstring" where
  "js s = map (\<lambda>c. of_nat (of_char c)) s"

text \<open>
  Numbers are doubles; every intermediate value of the id hash is an integer of magnitude
  below \<open>2 ^ 53\<close>, so it is modelled as an \<open>int\<close> with the conversions of the bitwise
  operators written out. \<open>ToInt32\<close> is the conversion the operators \<open><<\<close> and \<open>&\<close>
  apply to their operands and to their result.
\<close>

definition ToInt32 :: "int \<Rightarrow> int" where
  "ToInt32 x = (let m = x mod 2 ^ 32 in if m \<ge> 2 ^ 31 then m - 2 ^ 32 else m)"

definition jsShiftLeft :: "int \<Rightarrow> nat \<Rightarrow> int" where
  "jsShiftLeft x n = ToInt32 (ToInt32 x * 2 ^ (n mod 32))"

definition jsBitAnd :: "int \<Rightarrow> int \<Rightarrow> int" where
  "jsBitAnd x y = ToInt32 x AND ToInt32 y"

definition charCode :: "16 word \<Rightarrow> int" where
  "charCode c = uint c"

section \<open>crawl.js: generateId\<close>

text \<open>
  The loop of \<open>generateId\<close> over the code units of \<open>content\<close>, with the running
  \<open>hash\<close> as accumulator:
  \<^verbatim>\<open>hash = ((hash << 5) - hash) + char; hash = hash & hash;\<close>
\<close>

fun hashLoop :: "int \<Rightarrow> jsstring \<Rightarrow> int" where
  "hashLoop hash [] = hash"
| "hashLoop hash (c # content) =
     (let char = charCode c;
          hash1 = (jsShiftLeft hash 5 - hash) + char;
          hash2 = jsBitAnd hash1 hash1
      in hashLoop hash2 content)"

text \<open>\<open>Number.prototype.toString(36)\<close> on a non-negative integer: digits \<open>0-9a-z\<close>,
  most significant first, no leading zero, \<open>"0"\<close> for zero.\<close>

definition digit36 :: "nat \<Rightarrow> 16 word" where
  "digit36 d = js ''0123456789abcdefghijklmnopqrstuvwxyz'' ! d"

function toString36 :: "nat \<Rightarrow> jsstring" where
  "toString36 n =
     (if n < 36 then [digit36 n] else toString36 (n div 36) @ [digit36 (n mod 36)])"
  by pat_completeness auto
termination
  by (relation "measure id") auto

declare toString36.simps [simp del]

definition generateId :: "jsstring \<Rightarrow> jsstring \<Rightarrow> jsstring" where
  "generateId title url =
     (let content = title @ url;
          hash = hashLoop 0 content
      in toString36 (nat \<bar>hash\<bar>))"

text \<open>
  The fingerprint as the specification words it: a 32-bit signed accumulation
  \<open>hash := ((hash << 5) - hash) + charCode(c)\<close> over the code units, starting from 0,
  on machine words.
\<close>

definition step32 :: "32 word \<Rightarrow> 16 word \<Rightarrow> 32 word" where
  "step32 h c = (push_bit 5 h - h) + ucast c"

definition hash32 :: "jsstring \<Rightarrow> 32 word" where
  "hash32 s = foldl step32 0 s"

text \<open>The number a base-36 numeral denotes, digits \<open>0-9a-z\<close>, most significant first.\<close>

definition digitValue :: "16 word \<Rightarrow> nat" where
  "digitValue c = (if c \<le> 0x39 then unat c - 48 else unat c - 87)"

definition value36 :: "jsstring \<Rightarrow> nat" where
  "value36 s = foldl (\<lambda>v c. 36 * v + digitValue c) 0 s"

section \<open>crawl.js: extractDomain\<close>

text \<open>
  \<open>String.prototype.replace\<close> with a string pattern replaces the first occurrence of the
  pattern, wherever it is; the replacement used by the source is the empty string, so the
  \<open>$\<close> patterns of replacement strings play no role.
\<close>

fun replaceFirst :: "jsstring \<Rightarrow> jsstring \<Rightarrow> jsstring \<Rightarrow> jsstring" where
  "replaceFirst pat rep [] = (if pat = [] then rep else [])"
| "replaceFirst pat rep (c # s) =
     (if take (length pat) (c # s) = pat then rep @ drop (length pat) (c # s)
      else c # replaceFirst pat rep s)"

text \<open>
  \<^verbatim>\<open>try { return new URL(url).hostname.replace('www.', '') } catch { return 'unknown' }\<close>
  The WHATWG URL parser is a built-in of the runtime: \<open>hostnameOf url\<close> is the hostname of
  the parsed URL, or \<open>None\<close> where \<open>new URL(url)\<close> throws.
\<close>

definition extractDomain :: "(jsstring \<Rightarrow> jsstring option) \<Rightarrow> jsstring \<Rightarrow> jsstring" where
  "extractDomain hostnameOf url =
     (case hostnameOf url of
        Some hostname \<Rightarrow> replaceFirst (js ''www.'') [] hostname
      | None \<Rightarrow> js ''unknown'')"

section \<open>crawl.js: the duplicate key\<close>

text \<open>The class \<open>\s\<close> of a JavaScript regular expression: white space and line
  terminators.\<close>

definition isWhiteSpace :: "16 word \<Rightarrow> bool" where
  "isWhiteSpace c =
     (c \<in> {0x09, 0x0A, 0x0B, 0x0C, 0x0D, 0x20, 0xA0, 0x1680, 0x2028, 0x2029, 0x202F,
            0x205F, 0x3000, 0xFEFF} \<or> (0x2000 \<le> c \<and> c \<le> 0x200A))"

text \<open>The complement of the class \<open>[^a-z0-9\s]\<close>: the code units that survive
  \<^verbatim>\<open>.replace(/[^a-z0-9\s]/g, '')\<close>.\<close>

definition inKeyClass :: "16 word \<Rightarrow> bool" where
  "inKeyClass c =
     ((0x61 \<le> c \<and> c \<le> 0x7A) \<or> (0x30 \<le> c \<and> c \<le> 0x39) \<or> isWhiteSpace c)"

definition stripPunctuation :: "jsstring \<Rightarrow> jsstring" where
  "stripPunctuation s = filter inKeyClass s"

text \<open>\<^verbatim>\<open>.replace(/\s+/g, ' ')\<close>: every maximal run of white space becomes one space.\<close>

function collapseWhitespace :: "jsstring \<Rightarrow> jsstring" where
  "collapseWhitespace [] = []"
| "collapseWhitespace (c # s) =
     (if isWhiteSpace c then 0x20 # collapseWhitespace (dropWhile isWhiteSpace s)
      else c # collapseWhitespace s)"
  by pat_completeness auto
termination
  by (relation "measure length") (auto simp: length_dropWhile_le less_Suc_eq_le)

text \<open>\<open>trim\<close> removes white space and line terminators at both ends.\<close>

definition trim :: "jsstring \<Rightarrow> jsstring" where
  "trim s = rev (dropWhile isWhiteSpace (rev (dropWhile isWhiteSpace s)))"

text \<open>\<open>split\<close> on a one-character separator (the empty string splits into one empty
  piece) and \<open>join\<close> with a one-character separator.\<close>

fun split :: "16 word \<Rightarrow> jsstring \<Rightarrow> jsstring list" where
  "split sep [] = [[]]"
| "split sep (c # s) =
     (if c = sep then [] # split sep s
      else (case split sep s of w # ws \<Rightarrow> (c # w) # ws | [] \<Rightarrow> [[c]]))"

fun join :: "16 word \<Rightarrow> jsstring list \<Rightarrow> jsstring" where
  "join sep [] = []"
| "join sep [w] = w"
| "join sep (w # ws) = w @ sep # join sep ws"

text \<open>
  The key of \<open>removeDuplicates\<close>:
  \<^verbatim>\<open>title.toLowerCase().replace(/[^a-z0-9\s]/g, '').replace(/\s+/g, ' ').trim()
       .split(' ').slice(0, 8).join(' ')\<close>
  \<open>String.prototype.toLowerCase\<close> is the Unicode case mapping built into the runtime; it
  is a parameter of the model, and the results below hold for every such function.
\<close>

definition dedupKey :: "(jsstring \<Rightarrow> jsstring) \<Rightarrow> jsstring \<Rightarrow> jsstring" where
  "dedupKey toLowerCase title =
     join 0x20 (take 8 (split 0x20
       (trim (collapseWhitespace (stripPunctuation (toLowerCase title))))))"

text \<open>
  The key as the specification words it: the title in lower case, with every character
  that is not one of \<open>a-z\<close>, \<open>0-9\<close> or white space removed, cut into words (the maximal
  runs of characters that are not white space), of which the first 8 are joined by single
  spaces.
\<close>

definition isPunctuation :: "16 word \<Rightarrow> bool" where
  "isPunctuation c =
     (c \<notin> set (js ''abcdefghijklmnopqrstuvwxyz0123456789'') \<and> \<not> isWhiteSpace c)"

fun wordsOf :: "jsstring \<Rightarrow> jsstring list" where
  "wordsOf [] = []"
| "wordsOf (c # s) =
     (if isWhiteSpace c then wordsOf s
      else (case s of
              [] \<Rightarrow> [[c]]
            | d # r \<Rightarrow>
                if isWhiteSpace d then [c] # wordsOf s
                else (case wordsOf s of w # ws \<Rightarrow> (c # w) # ws | [] \<Rightarrow> [[c]])))"

fun joinWords :: "jsstring list \<Rightarrow> jsstring" where
  "joinWords [] = []"
| "joinWords [w] = w"
| "joinWords (w # v # ws) = w @ [0x20] @ joinWords (v # ws)"

definition normalizedTitleKey :: "(jsstring \<Rightarrow> jsstring) \<Rightarrow> jsstring \<Rightarrow> jsstring" where
  "normalizedTitleKey toLowerCase t =
     joinWords (take 8 (wordsOf (filter (\<lambda>c. \<not> isPunctuation c) (toLowerCase t))))"

section \<open>crawl.js: cleanTitle and the description\<close>

definition isLineTerminator :: "16 word \<Rightarrow> bool" where
  "isLineTerminator c = (c \<in> {0x0A, 0x0D, 0x2028, 0x2029})"

text \<open>
  \<^verbatim>\<open>.replace(/\[.*?\]/g, '')\<close> and \<^verbatim>\<open>.replace(/\(.*?\)/g, '')\<close>: at an opening
  bracket the lazy \<open>.*?\<close> stops at the nearest closing bracket, and \<open>.\<close> does not cross a
  line terminator; where there is no such group the bracket stays.
\<close>

function removeGroups :: "16 word \<Rightarrow> 16 word \<Rightarrow> jsstring \<Rightarrow> jsstring" where
  "removeGroups opn cls [] = []"
| "removeGroups opn cls (c # s) =
     (let inner = takeWhile (\<lambda>d. d \<noteq> cls) s
      in if c = opn \<and> cls \<in> set s \<and> \<not> (\<exists>d \<in> set inner. isLineTerminator d)
         then removeGroups opn cls (tl (dropWhile (\<lambda>d. d \<noteq> cls) s))
         else c # removeGroups opn cls s)"
  by pat_completeness auto
termination
proof (relation "measure (\<lambda>(opn, cls, s). length s)", goal_cases)
  case 1
  show ?case by simp
next
  case (2 opn cls c s inner)
  have "length (tl (dropWhile (\<lambda>d. d \<noteq> cls) s)) \<le> length s"
    by (simp add: le_diff_conv le_SucI length_dropWhile_le)
  then show ?case by simp
next
  case (3 opn cls c s inner)
  show ?case by simp
qed

definition cleanTitle :: "jsstring \<Rightarrow> jsstring" where
  "cleanTitle t = trim (collapseWhitespace (removeGroups 0x28 0x29 (removeGroups 0x5B 0x5D t)))"

text \<open>\<^verbatim>\<open>.replace(/<[^>]*>/g, '')\<close>: from a \<open><\<close> to the next \<open>>\<close>.\<close>

function stripTags :: "jsstring \<Rightarrow> jsstring" where
  "stripTags [] = []"
| "stripTags (c # s) =
     (if c = 0x3C \<and> 0x3E \<in> set s then stripTags (tl (dropWhile (\<lambda>d. d \<noteq> 0x3E) s))
      else c # stripTags s)"
  by pat_completeness auto
termination
proof (relation "measure length", goal_cases)
  case 1
  show ?case by simp
next
  case (2 c s)
  have "length (tl (dropWhile (\<lambda>d. d \<noteq> 0x3E) s)) \<le> length s"
    by (simp add: le_diff_conv le_SucI length_dropWhile_le)
  then show ?case by simp
next
  case (3 c s)
  show ?case by simp
qed

section \<open>The data model\<close>

text \<open>
  A date-valued field (of a feed item or of an article read back from JSON) is only ever
  tested for truthiness by \<open>||\<close> and handed to \<open>new Date\<close>. It is modelled by what those
  two make of it: \<open>Missing\<close> is \<open>undefined\<close> or the empty string (falsy, Invalid Date),
  \<open>Null\<close> is \<open>null\<close> (falsy, the epoch), \<open>Stamp t\<close> is a string that \<open>new Date\<close> parses to
  the time value \<open>t\<close> in milliseconds (what \<open>toISOString\<close> writes), and \<open>Garbage\<close> is any
  other non-empty string (truthy, Invalid Date).
\<close>

datatype dateval = Missing | Null | Stamp int | Garbage

definition truthyDate :: "dateval \<Rightarrow> bool" where
  "truthyDate d = (case d of Stamp t \<Rightarrow> True | Garbage \<Rightarrow> True | _ \<Rightarrow> False)"

text \<open>\<open>new Date(d)\<close>: the time value, \<open>None\<close> for an Invalid Date.\<close>

definition newDate :: "dateval \<Rightarrow> int option" where
  "newDate d = (case d of Stamp t \<Rightarrow> Some t | Null \<Rightarrow> Some 0 | _ \<Rightarrow> None)"

definition orDate :: "dateval \<Rightarrow> dateval \<Rightarrow> dateval" where
  "orDate a b = (if truthyDate a then a else b)"

definition DAY_MS :: int where
  "DAY_MS = 24 * 60 * 60 * 1000"

text \<open>
  The article object, with the fields the crawler writes and the fields the processing
  pass adds or overwrites (absent or \<open>null\<close> fields are \<open>None\<close>, \<open>Missing\<close> or empty).
\<close>

record Article =
  id :: jsstring
  title :: jsstring
  url :: jsstring
  source :: jsstring
  source_domain :: jsstring
  source_category :: jsstring
  source_priority :: int
  pubDate :: dateval
  published_at :: dateval
  metaDescription :: jsstring
  crawledAt :: dateval
  category :: "jsstring option"
  difficulty :: "int option"
  confidence :: "real option"
  entities :: "(jsstring \<times> jsstring) list"
  summary :: "jsstring option"
  language :: "jsstring option"
  processed_at :: dateval
  rejectedReason :: "jsstring option"
  confidenceThreshold :: "real option"
  rejected_at :: dateval

text \<open>A source descriptor of \<open>sources.json\<close> and an item of a parsed feed.\<close>

record Source =
  src_name :: jsstring
  src_url :: jsstring
  src_category :: jsstring
  src_priority :: int

record RawItem =
  item_title :: "jsstring option"
  item_link :: "jsstring option"
  item_guid :: "jsstring option"
  item_contentSnippet :: "jsstring option"
  item_content :: "jsstring option"
  item_summary :: "jsstring option"
  item_pubDate :: dateval
  item_isoDate :: dateval
  item_published :: dateval

text \<open>
  The clock readings taken while one feed item is handled: \<open>Date.now()\<close> inside
  \<open>new Date(... || Date.now())\<close>, \<open>now = new Date()\<close>, \<open>Date.now()\<close> of the cut-off, and
  \<open>new Date()\<close> of \<open>crawledAt\<close>.
\<close>

record ItemClock =
  tDefault :: int
  tNow :: int
  tCutoff :: int
  tCrawled :: int

section \<open>crawl.js: removeDuplicates\<close>

fun removeDuplicatesLoop ::
  "(jsstring \<Rightarrow> jsstring) \<Rightarrow> Article list \<Rightarrow> Article list \<times> jsstring set \<Rightarrow>
   Article list \<times> jsstring set"
where
  "removeDuplicatesLoop toLowerCase [] (unique, seen) = (unique, seen)"
| "removeDuplicatesLoop toLowerCase (article # articles) (unique, seen) =
     (let key = dedupKey toLowerCase (title article)
      in if key \<notin> seen
         then removeDuplicatesLoop toLowerCase articles (unique @ [article], insert key seen)
         else removeDuplicatesLoop toLowerCase articles (unique, seen))"

definition removeDuplicates :: "(jsstring \<Rightarrow> jsstring) \<Rightarrow> Article list \<Rightarrow> Article list" where
  "removeDuplicates toLowerCase articles =
     fst (removeDuplicatesLoop toLowerCase articles ([], {}))"

text \<open>The key under which \<open>removeDuplicates\<close> files an article.\<close>

definition articleKey :: "(jsstring \<Rightarrow> jsstring) \<Rightarrow> Article \<Rightarrow> jsstring" where
  "articleKey toLowerCase article = dedupKey toLowerCase (title article)"

section \<open>crawl.js: crawlFeed\<close>

definition truthyStr :: "jsstring option \<Rightarrow> bool" where
  "truthyStr v = (case v of Some (c # s) \<Rightarrow> True | _ \<Rightarrow> False)"

definition itemLimitFor :: "jsstring \<Rightarrow> nat" where
  "itemLimitFor cat =
     (if cat = js ''youtube'' then 10
      else if cat = js ''research'' then 15
      else if cat = js ''community'' then 25
      else if cat = js ''medium'' then 15
      else if cat = js ''developer'' then 12
      else if cat = js ''agentic'' then 20 else 20)"

definition daysBackFor :: "jsstring \<Rightarrow> int" where
  "daysBackFor cat =
     (if cat = js ''youtube'' then 14
      else if cat = js ''research'' then 15
      else if cat = js ''community'' then 3
      else if cat = js ''medium'' then 7
      else if cat = js ''developer'' then 14
      else if cat = js ''tutorial'' then 14
      else if cat = js ''agentic'' then 10 else 7)"

text \<open>\<^verbatim>\<open>item.link || item.guid\<close>\<close>

definition itemUrl :: "RawItem \<Rightarrow> jsstring option" where
  "itemUrl item = (if truthyStr (item_link item) then item_link item else item_guid item)"

definition itemDescription :: "RawItem \<Rightarrow> jsstring" where
  "itemDescription item =
     (case item_contentSnippet item of
        Some (c # s) \<Rightarrow> take 200 (c # s)
      | _ \<Rightarrow>
       (case item_content item of
          Some (c # s) \<Rightarrow> take 200 (stripTags (c # s))
        | _ \<Rightarrow>
         (case item_summary item of
            Some (c # s) \<Rightarrow> take 200 (stripTags (c # s))
          | _ \<Rightarrow> [])))"

text \<open>\<^verbatim>\<open>new Date(item.pubDate || item.isoDate || item.published || Date.now())\<close>\<close>

definition itemDate :: "ItemClock \<Rightarrow> RawItem \<Rightarrow> int option" where
  "itemDate clk item =
     (if truthyDate (item_pubDate item) then newDate (item_pubDate item)
      else if truthyDate (item_isoDate item) then newDate (item_isoDate item)
      else if truthyDate (item_published item) then newDate (item_published item)
      else Some (tDefault clk))"

text \<open>
  The body of the loop over the items of one feed; \<open>None\<close> is \<open>continue\<close>. The relevance
  decision (the zero-shot classifier, or the keyword lists when it is not available) is
  the parameter \<open>relevant\<close>, applied to the source, the cleaned title and the description.
\<close>

definition crawlItem ::
  "(Source \<Rightarrow> jsstring \<Rightarrow> jsstring \<Rightarrow> bool) \<Rightarrow> (jsstring \<Rightarrow> jsstring option) \<Rightarrow>
   ItemClock \<Rightarrow> Source \<Rightarrow> RawItem \<Rightarrow> Article option"
where
  "crawlItem relevant hostnameOf clk src item =
     (let title = cleanTitle (case item_title item of Some t \<Rightarrow> t | None \<Rightarrow> [])
      in case itemUrl item of
           None \<Rightarrow> None
         | Some [] \<Rightarrow> None
         | Some (u # rl) \<Rightarrow>
          (let url = u # rl in
           if title = [] then None
           else
             let description = itemDescription item;
                 isRelevant = relevant src title description
             in if \<not> isRelevant then None
                else
                  let daysBack = daysBackFor (src_category src)
                  in case itemDate clk item of
                       None \<Rightarrow> None
                     | Some parsed \<Rightarrow>
                        (let now = tNow clk;
                             pubDate = (if parsed > now then now else parsed);
                             cutoffDate = tCutoff clk - daysBack * DAY_MS
                         in if pubDate < cutoffDate then None
                            else Some
                              \<lparr> id = generateId title url,
                                title = title,
                                url = url,
                                source = src_name src,
                                source_domain = extractDomain hostnameOf url,
                                source_category = src_category src,
                                source_priority = src_priority src,
                                pubDate = Stamp pubDate,
                                published_at = Missing,
                                metaDescription = description,
                                crawledAt = Stamp (tCrawled clk),
                                category = None,
                                difficulty = None,
                                confidence = None,
                                entities = [],
                                summary = None,
                                language = None,
                                processed_at = Missing,
                                rejectedReason = None,
                                confidenceThreshold = None,
                                rejected_at = Missing \<rparr>)))"

text \<open>The loop, each item paired with the clock readings taken while it is handled.\<close>

fun crawlFeedLoop ::
  "(Source \<Rightarrow> jsstring \<Rightarrow> jsstring \<Rightarrow> bool) \<Rightarrow> (jsstring \<Rightarrow> jsstring option) \<Rightarrow>
   Source \<Rightarrow> (ItemClock \<times> RawItem) list \<Rightarrow> Article list \<Rightarrow> Article list"
where
  "crawlFeedLoop relevant hostnameOf src [] articles = articles"
| "crawlFeedLoop relevant hostnameOf src ((clk, item) # items) articles =
     (case crawlItem relevant hostnameOf clk src item of
        None \<Rightarrow> crawlFeedLoop relevant hostnameOf src items articles
      | Some article \<Rightarrow> crawlFeedLoop relevant hostnameOf src items (articles @ [article]))"

text \<open>\<open>crawlFeed\<close>: a feed that cannot be fetched or parsed (\<open>None\<close>) gives no articles.\<close>

definition crawlFeed ::
  "(Source \<Rightarrow> jsstring \<Rightarrow> jsstring \<Rightarrow> bool) \<Rightarrow> (jsstring \<Rightarrow> jsstring option) \<Rightarrow>
   Source \<Rightarrow> (ItemClock \<times> RawItem) list option \<Rightarrow> Article list"
where
  "crawlFeed relevant hostnameOf src feed =
     (case feed of
        None \<Rightarrow> []
      | Some feedItems \<Rightarrow>
          (let itemLimit = itemLimitFor (src_category src);
               items = take itemLimit feedItems
           in crawlFeedLoop relevant hostnameOf src items []))"

section \<open>Files, errors and exit status\<close>

datatype jserror = Error jsstring

datatype Path = LatestRaw | LatestProcessed | DailyProcessed | RejectedArticles

text \<open>The result of the rolling clean-up; the latest-processed document extends it.\<close>

record Cleanup =
  articles :: "Article list"
  cleanedUpCount :: int
  cleanupApplied :: bool

record LatestData = Cleanup +
  processedAt :: int
  totalArticles :: nat
  categories :: "jsstring option list option"
  processingMethod :: jsstring
  newArticlesProcessed :: "nat option"
  existingArticlesKept :: "nat option"
  rollingWindowDays :: int

record DailyData =
  daily_articles :: "Article list"
  daily_processedAt :: int
  daily_totalArticles :: nat
  daily_categories :: "jsstring option list option"
  daily_processingMethod :: jsstring
  daily_newArticlesProcessed :: "nat option"
  dailyArticlesCount :: nat
  filterDate :: int

record RejectedData =
  rejected_articles :: "Article list"
  updatedAt :: int
  totalRejected :: nat
  newlyRejected :: nat
  cleanupThresholdDays :: int
  rejected_cleanedUpCount :: int

datatype Document =
    RawDoc "Article list"
  | LatestDoc LatestData
  | DailyDoc DailyData
  | RejectedDoc RejectedData

text \<open>
  The files written so far, in order. \<open>fs.writeFile\<close> either replaces the whole document
  or rejects with an error; which paths fail is given by \<open>writeError\<close>.
\<close>

type_synonym Disk = "(Path \<times> Document) list"

definition writeFile ::
  "(Path \<Rightarrow> jserror option) \<Rightarrow> Path \<Rightarrow> Document \<Rightarrow> Disk \<Rightarrow> Disk \<times> (jserror + unit)"
where
  "writeFile writeError p doc disk =
     (case writeError p of
        Some e \<Rightarrow> (disk, Inl e)
      | None \<Rightarrow> (disk @ [(p, doc)], Inr ()))"

record ExitStatus =
  consoleError :: "jserror list"
  exitCode :: nat

section \<open>Sorting newest first\<close>

text \<open>
  \<^verbatim>\<open>xs.sort((a, b) => new Date(dateOf b) - new Date(dateOf a))\<close>. A comparison that
  involves an Invalid Date gives \<open>NaN\<close>, which \<open>sort\<close> reads as 0. The sort is stable;
  it is modelled by stable insertion. (Where every date is valid all stable sorts agree;
  with Invalid Dates the order depends on the engine, and nothing below relies on it.)
\<close>

definition compareNewestFirst :: "(Article \<Rightarrow> int option) \<Rightarrow> Article \<Rightarrow> Article \<Rightarrow> int" where
  "compareNewestFirst dateOf a b =
     (case (dateOf b, dateOf a) of (Some tb, Some ta) \<Rightarrow> tb - ta | _ \<Rightarrow> 0)"

fun insertSorted :: "(Article \<Rightarrow> int option) \<Rightarrow> Article \<Rightarrow> Article list \<Rightarrow> Article list" where
  "insertSorted dateOf x [] = [x]"
| "insertSorted dateOf x (y # ys) =
     (if compareNewestFirst dateOf y x > 0 then x # y # ys else y # insertSorted dateOf x ys)"

definition sortNewestFirst :: "(Article \<Rightarrow> int option) \<Rightarrow> Article list \<Rightarrow> Article list" where
  "sortNewestFirst dateOf xs = foldl (\<lambda>sorted x. insertSorted dateOf x sorted) [] xs"

section \<open>crawl.js: crawlAllSources and the entry point\<close>

record CrawlOutcome =
  crawl_written :: Disk
  crawl_returned :: "jserror + Article list"

text \<open>
  \<open>crawlAllSources\<close>: \<open>sourcesFile\<close> is the outcome of reading \<open>sources.json\<close>, \<open>feeds\<close>
  the outcome of fetching each source, \<open>mkdirError\<close> the outcome of creating the data
  directory. Batches are awaited in order, so the articles arrive in source order.
\<close>

definition crawlAllSources ::
  "(jsstring \<Rightarrow> jsstring) \<Rightarrow> (Source \<Rightarrow> jsstring \<Rightarrow> jsstring \<Rightarrow> bool) \<Rightarrow>
   (jsstring \<Rightarrow> jsstring option) \<Rightarrow> (jserror + Source list) \<Rightarrow>
   (Source \<Rightarrow> (ItemClock \<times> RawItem) list option) \<Rightarrow> jserror option \<Rightarrow>
   (Path \<Rightarrow> jserror option) \<Rightarrow> CrawlOutcome"
where
  "crawlAllSources toLowerCase relevant hostnameOf sourcesFile feeds mkdirError writeError =
     (case sourcesFile of
        Inl e \<Rightarrow> \<lparr> crawl_written = [], crawl_returned = Inl e \<rparr>
      | Inr sources \<Rightarrow>
         (let allArticles =
                concat (map (\<lambda>src. crawlFeed relevant hostnameOf src (feeds src)) sources);
              uniqueArticles =
                sortNewestFirst (\<lambda>a. newDate (pubDate a)) (removeDuplicates toLowerCase allArticles)
          in case mkdirError of
               Some e \<Rightarrow> \<lparr> crawl_written = [], crawl_returned = Inl e \<rparr>
             | None \<Rightarrow>
                (case writeFile writeError LatestRaw (RawDoc uniqueArticles) [] of
                   (disk, Inl e) \<Rightarrow> \<lparr> crawl_written = disk, crawl_returned = Inl e \<rparr>
                 | (disk, Inr _) \<Rightarrow>
                     \<lparr> crawl_written = disk, crawl_returned = Inr uniqueArticles \<rparr>)))"

text \<open>
  \<^verbatim>\<open>crawlAllSources().then(...).catch(error => { console.error(...); process.exit(1) })\<close>
\<close>

definition crawlMain ::
  "(jsstring \<Rightarrow> jsstring) \<Rightarrow> (Source \<Rightarrow> jsstring \<Rightarrow> jsstring \<Rightarrow> bool) \<Rightarrow>
   (jsstring \<Rightarrow> jsstring option) \<Rightarrow> (jserror + Source list) \<Rightarrow>
   (Source \<Rightarrow> (ItemClock \<times> RawItem) list option) \<Rightarrow> jserror option \<Rightarrow>
   (Path \<Rightarrow> jserror option) \<Rightarrow> ExitStatus"
where
  "crawlMain toLowerCase relevant hostnameOf sourcesFile feeds mkdirError writeError =
     (case crawl_returned
             (crawlAllSources toLowerCase relevant hostnameOf sourcesFile feeds mkdirError writeError) of
        Inr found \<Rightarrow> \<lparr> consoleError = [], exitCode = 0 \<rparr>
      | Inl error \<Rightarrow> \<lparr> consoleError = [error], exitCode = 1 \<rparr>)"

section \<open>process-with-llm.js: processArticlesWithAI\<close>

text \<open>
  What the classification of one article yields: the category and confidence of the
  zero-shot classifier (or of the rule-based fallback), the entities, the difficulty and
  the summary. The models are external; the whole step is the parameter \<open>analyse\<close>.
\<close>

record Analysis =
  an_category :: jsstring
  an_confidence :: real
  an_entities :: "(jsstring \<times> jsstring) list"
  an_difficulty :: int
  an_summary :: jsstring

text \<open>
  The clock readings of one run: at the classification of the i-th article (the
  \<open>rejected_at\<close> or \<open>processed_at\<close> stamp), at the rolling clean-up, at the stamps of the
  two snapshots, and at the clean-up and the stamp of the rejected cache.
\<close>

record RunClock =
  tArticle :: "nat \<Rightarrow> int"
  tCleanup :: int
  tProcessedAt :: int
  tToday :: int
  tDailyProcessedAt :: int
  tRejectedCleanup :: int
  tRejectedUpdatedAt :: int

text \<open>
  The environment, after \<open>parseInt\<close> and \<open>parseFloat\<close>: \<open>PROCESSING_LIMIT\<close> is \<open>None\<close>
  when the variable is unset, empty or not a number.
\<close>

record Env =
  PROCESSING_LIMIT :: "int option"
  PROCESS_CONFIDENCE_THRESHOLD :: real
  REJECTED_CACHE_CLEANUP_DAYS :: int

definition defaultEnv :: Env where
  "defaultEnv = \<lparr> PROCESSING_LIMIT = None, PROCESS_CONFIDENCE_THRESHOLD = 0.25,
                   REJECTED_CACHE_CLEANUP_DAYS = 15 \<rparr>"

text \<open>
  The three JSON files the run reads (an \<open>Inl\<close> is a failed read or parse; for the
  processed snapshot and the rejected cache the source catches it and starts empty), and
  the outcome of each write.
\<close>

record Files =
  rawFile :: "jserror + Article list"
  processedFile :: "jserror + Article list"
  rejectedFile :: "jserror + Article list"
  writeError :: "Path \<Rightarrow> jserror option"

text \<open>\<open>xs.slice(0, n)\<close>: a negative \<open>n\<close> counts from the end.\<close>

definition jsSliceTo :: "int \<Rightarrow> 'a list \<Rightarrow> 'a list" where
  "jsSliceTo n xs = (if n < 0 then take (nat (int (length xs) + n)) xs else take (nat n) xs)"

definition articlesToProcess :: "Article list \<Rightarrow> Article list \<Rightarrow> Article list \<Rightarrow> Article list" where
  "articlesToProcess rawArticles existingProcessed rejectedArticles =
     (let processedIds = set (map id existingProcessed);
          rejectedIds = set (map id rejectedArticles)
      in filter (\<lambda>article. id article \<notin> processedIds \<and> id article \<notin> rejectedIds) rawArticles)"

text \<open>\<^verbatim>\<open>testLimit ? articlesToProcess.slice(0, testLimit) : articlesToProcess\<close>\<close>

definition finalArticlesToProcess :: "int option \<Rightarrow> Article list \<Rightarrow> Article list" where
  "finalArticlesToProcess testLimit toProcess =
     (case testLimit of
        None \<Rightarrow> toProcess
      | Some n \<Rightarrow> if n \<noteq> 0 then jsSliceTo n toProcess else toProcess)"

definition rejectedArticleOf :: "real \<Rightarrow> Analysis \<Rightarrow> int \<Rightarrow> Article \<Rightarrow> Article" where
  "rejectedArticleOf threshold result t article =
     article \<lparr> rejectedReason := Some (js ''low_confidence''),
               confidence := Some (an_confidence result),
               confidenceThreshold := Some threshold,
               rejected_at := Stamp t \<rparr>"

definition processedArticleOf :: "Analysis \<Rightarrow> int \<Rightarrow> Article \<Rightarrow> Article" where
  "processedArticleOf result t article =
     article \<lparr> category := Some (an_category result),
               confidence := Some (an_confidence result),
               difficulty := Some (an_difficulty result),
               entities := an_entities result,
               summary := Some (an_summary result),
               language := Some (js ''en''),
               processed_at := Stamp t \<rparr>"

text \<open>The loop over \<open>finalArticlesToProcess\<close>, with the index \<open>i\<close> of the article.\<close>

fun processLoop ::
  "(Article \<Rightarrow> Analysis) \<Rightarrow> real \<Rightarrow> (nat \<Rightarrow> int) \<Rightarrow> nat \<Rightarrow> Article list \<Rightarrow>
   Article list \<times> Article list \<Rightarrow> Article list \<times> Article list"
where
  "processLoop analyse threshold clock i [] (newlyProcessedArticles, newlyRejectedArticles) =
     (newlyProcessedArticles, newlyRejectedArticles)"
| "processLoop analyse threshold clock i (article # rest)
       (newlyProcessedArticles, newlyRejectedArticles) =
     (let result = analyse article
      in if an_confidence result < threshold
         then
           let rejectedArticle = rejectedArticleOf threshold result (clock i) article
           in processLoop analyse threshold clock (Suc i) rest
                (newlyProcessedArticles, newlyRejectedArticles @ [rejectedArticle])
         else
           let processedArticle = processedArticleOf result (clock i) article
           in processLoop analyse threshold clock (Suc i) rest
                (newlyProcessedArticles @ [processedArticle], newlyRejectedArticles))"

text \<open>\<^verbatim>\<open>new Date(article.pubDate || article.published_at)\<close> and
  \<^verbatim>\<open>new Date(article.processed_at || article.crawledAt)\<close>\<close>

definition publishedDate :: "Article \<Rightarrow> int option" where
  "publishedDate article = newDate (orDate (pubDate article) (published_at article))"

definition processedDate :: "Article \<Rightarrow> int option" where
  "processedDate article = newDate (orDate (processed_at article) (crawledAt article))"

text \<open>
  The 15-day rolling clean-up (the same code in both branches of the run): \<open>now\<close> is the
  reading of \<open>Date.now()\<close>; a comparison with an Invalid Date is false.
\<close>

definition rollingCleanup :: "int \<Rightarrow> Article list \<Rightarrow> Cleanup" where
  "rollingCleanup now allProcessedArticles =
     (let cleanupThresholdDays = 15;
          cleanupThreshold = now - cleanupThresholdDays * DAY_MS;
          beforeCleanup = length allProcessedArticles;
          recentArticles = filter (\<lambda>article.
                     case publishedDate article of
                       Some published \<Rightarrow> published > cleanupThreshold
                     | None \<Rightarrow> False) allProcessedArticles;
          cleanedUp = int beforeCleanup - int (length recentArticles)
      in \<lparr> articles = recentArticles, cleanedUpCount = cleanedUp,
           cleanupApplied = (cleanedUp > 0) \<rparr>)"

text \<open>The articles published or processed on the UTC day of \<open>today\<close>.\<close>

definition todaysArticles :: "int \<Rightarrow> Article list \<Rightarrow> Article list" where
  "todaysArticles today recent =
     (let todayStart = today - today mod DAY_MS;
          todayEnd = todayStart + DAY_MS - 1;
          isToday = (\<lambda>d. case d of Some t \<Rightarrow> t \<ge> todayStart \<and> t \<le> todayEnd | None \<Rightarrow> False)
      in filter (\<lambda>article. isToday (publishedDate article) \<or> isToday (processedDate article)) recent)"

definition uniqueValues :: "'a list \<Rightarrow> 'a list" where
  "uniqueValues xs = rev (remdups (rev xs))"

text \<open>The new content of the rejected cache: append, then drop what is older than the
  clean-up window.\<close>

definition rejectedCache :: "Env \<Rightarrow> RunClock \<Rightarrow> Article list \<Rightarrow> Article list \<Rightarrow> RejectedData" where
  "rejectedCache env clk rejectedArticles newlyRejectedArticles =
     (let allRejectedArticles = rejectedArticles @ newlyRejectedArticles;
          days = REJECTED_CACHE_CLEANUP_DAYS env;
          cleanupThreshold = tRejectedCleanup clk - days * DAY_MS;
          beforeCleanup = length allRejectedArticles;
          kept = filter (\<lambda>article.
                   case newDate (rejected_at article) of
                     Some rejectedDate \<Rightarrow> rejectedDate > cleanupThreshold
                   | None \<Rightarrow> False) allRejectedArticles;
          cleanedUp = int beforeCleanup - int (length kept)
      in \<lparr> rejected_articles = kept,
           updatedAt = tRejectedUpdatedAt clk,
           totalRejected = length kept,
           newlyRejected = length newlyRejectedArticles,
           cleanupThresholdDays = days,
           rejected_cleanedUpCount = cleanedUp \<rparr>)"

record RunOutcome =
  written :: Disk
  returned :: "jserror + LatestData"

text \<open>The two awaited writes of the snapshots; an error of the first skips the second.\<close>

definition saveSnapshots ::
  "Files \<Rightarrow> LatestData \<Rightarrow> DailyData \<Rightarrow> Disk \<Rightarrow> Disk \<times> (jserror + unit)"
where
  "saveSnapshots fs latestData dailyData disk =
     (case writeFile (writeError fs) LatestProcessed (LatestDoc latestData) disk of
        (disk1, Inl e) \<Rightarrow> (disk1, Inl e)
      | (disk1, Inr _) \<Rightarrow> writeFile (writeError fs) DailyProcessed (DailyDoc dailyData) disk1)"

text \<open>The branch taken when there is nothing new to process.\<close>

definition cachedBranch :: "RunClock \<Rightarrow> Files \<Rightarrow> Article list \<Rightarrow> RunOutcome" where
  "cachedBranch clk fs existingProcessed =
     (let cleanup = rollingCleanup (tCleanup clk) existingProcessed;
          recent = articles cleanup;
          latestData =
            \<lparr> articles = recent,
              cleanedUpCount = cleanedUpCount cleanup,
              cleanupApplied = cleanupApplied cleanup,
              processedAt = tProcessedAt clk,
              totalArticles = length recent,
              categories = None,
              processingMethod = js ''cached'',
              newArticlesProcessed = None,
              existingArticlesKept = None,
              rollingWindowDays = 15 \<rparr>;
          todays = todaysArticles (tToday clk) recent;
          dailyData =
            \<lparr> daily_articles = todays,
              daily_processedAt = tDailyProcessedAt clk,
              daily_totalArticles = length todays,
              daily_categories = None,
              daily_processingMethod = js ''cached'',
              daily_newArticlesProcessed = None,
              dailyArticlesCount = length todays,
              filterDate = tToday clk - tToday clk mod DAY_MS \<rparr>
      in case saveSnapshots fs latestData dailyData [] of
           (disk, Inl e) \<Rightarrow> \<lparr> written = disk, returned = Inl e \<rparr>
         | (disk, Inr _) \<Rightarrow> \<lparr> written = disk, returned = Inr latestData \<rparr>)"

text \<open>The branch that classifies the new articles.\<close>

definition processingBranch ::
  "Env \<Rightarrow> RunClock \<Rightarrow> (Article \<Rightarrow> Analysis) \<Rightarrow> bool \<Rightarrow> Files \<Rightarrow>
   Article list \<Rightarrow> Article list \<Rightarrow> Article list \<Rightarrow> RunOutcome"
where
  "processingBranch env clk analyse useAI fs existingProcessed rejectedArticles final =
     (let threshold = PROCESS_CONFIDENCE_THRESHOLD env;
          loop = processLoop analyse threshold (tArticle clk) 0 final ([], []);
          newlyProcessedArticles = fst loop;
          newlyRejectedArticles = snd loop;
          allProcessedArticles =
             sortNewestFirst publishedDate (existingProcessed @ newlyProcessedArticles);
          cleanup = rollingCleanup (tCleanup clk) allProcessedArticles;
          recent = articles cleanup;
          method = (if useAI then js ''ai-powered'' else js ''rule-based'');
          latestData =
            \<lparr> articles = recent,
              cleanedUpCount = cleanedUpCount cleanup,
              cleanupApplied = cleanupApplied cleanup,
              processedAt = tProcessedAt clk,
              totalArticles = length recent,
              categories = Some (uniqueValues (map category recent)),
              processingMethod = method,
              newArticlesProcessed = Some (length newlyProcessedArticles),
              existingArticlesKept = Some (length existingProcessed),
              rollingWindowDays = 15 \<rparr>;
          todays = todaysArticles (tToday clk) recent;
          dailyData =
            \<lparr> daily_articles = todays,
              daily_processedAt = tDailyProcessedAt clk,
              daily_totalArticles = length todays,
              daily_categories = Some (uniqueValues (map category todays)),
              daily_processingMethod = method,
              daily_newArticlesProcessed = Some (length newlyProcessedArticles),
              dailyArticlesCount = length todays,
              filterDate = tToday clk - tToday clk mod DAY_MS \<rparr>
      in case saveSnapshots fs latestData dailyData [] of
           (disk, Inl e) \<Rightarrow> \<lparr> written = disk, returned = Inl e \<rparr>
         | (disk, Inr _) \<Rightarrow>
            if newlyRejectedArticles \<noteq> []
            then
              (let rejectedOutputData =
                     rejectedCache env clk rejectedArticles newlyRejectedArticles
               in case writeFile (writeError fs) RejectedArticles
                         (RejectedDoc rejectedOutputData) disk of
                    (disk', Inl e) \<Rightarrow> \<lparr> written = disk', returned = Inl e \<rparr>
                  | (disk', Inr _) \<Rightarrow> \<lparr> written = disk', returned = Inr latestData \<rparr>)
            else \<lparr> written = disk, returned = Inr latestData \<rparr>)"

text \<open>\<^verbatim>\<open>let x = { articles: [] }; try { x = JSON.parse(await fs.readFile(...)) } catch { }\<close>\<close>

definition readOrEmpty :: "jserror + Article list \<Rightarrow> Article list" where
  "readOrEmpty file = (case file of Inr xs \<Rightarrow> xs | Inl _ \<Rightarrow> [])"

definition processArticlesWithAI ::
  "Env \<Rightarrow> RunClock \<Rightarrow> (Article \<Rightarrow> Analysis) \<Rightarrow> bool \<Rightarrow> Files \<Rightarrow> RunOutcome"
where
  "processArticlesWithAI env clk analyse useAI fs =
     (case rawFile fs of
        Inl e \<Rightarrow> \<lparr> written = [], returned = Inl e \<rparr>
      | Inr rawArticles \<Rightarrow>
         (let existingProcessed = readOrEmpty (processedFile fs);
              rejectedArticles = readOrEmpty (rejectedFile fs);
              toProcess = articlesToProcess rawArticles existingProcessed rejectedArticles;
              final = finalArticlesToProcess (PROCESSING_LIMIT env) toProcess
          in if final = [] then cachedBranch clk fs existingProcessed
             else processingBranch env clk analyse useAI fs existingProcessed rejectedArticles
                    final))"

text \<open>\<^verbatim>\<open>processArticlesWithAI().catch(console.error)\<close>: the rejection is logged and the
  process ends normally, with exit code 0.\<close>

definition processMain ::
  "Env \<Rightarrow> RunClock \<Rightarrow> (Article \<Rightarrow> Analysis) \<Rightarrow> bool \<Rightarrow> Files \<Rightarrow> ExitStatus"
where
  "processMain env clk analyse useAI fs =
     (case returned (processArticlesWithAI env clk analyse useAI fs) of
        Inr latestData \<Rightarrow> \<lparr> consoleError = [], exitCode = 0 \<rparr>
      | Inl error \<Rightarrow> \<lparr> consoleError = [error], exitCode = 0 \<rparr>)"

text \<open>
  Two observers of a run, used to state its properties: the articles it hands to the
  classification loop, and the articles of the latest-processed document it returns.
\<close>

definition submitted :: "Env \<Rightarrow> Files \<Rightarrow> Article list" where
  "submitted env fs =
     (case rawFile fs of
        Inl e \<Rightarrow> []
      | Inr rawArticles \<Rightarrow>
          finalArticlesToProcess (PROCESSING_LIMIT env)
            (articlesToProcess rawArticles (readOrEmpty (processedFile fs))
               (readOrEmpty (rejectedFile fs))))"

definition snapshotArticles :: "RunOutcome \<Rightarrow> Article list option" where
  "snapshotArticles out = (case returned out of Inr latestData \<Rightarrow> Some (articles latestData) | Inl e \<Rightarrow> None)"

section \<open>Sample data\<close>

text \<open>
  Concrete inputs on which the results below are evaluated. \<open>toLowerCaseASCII\<close> agrees
  with \<open>toLowerCase\<close> on strings of Basic Latin code units; \<open>sampleHostnameOf\<close> lists the
  hostnames of the URLs used.
\<close>

definition toLowerCaseASCII :: "jsstring \<Rightarrow> jsstring" where
  "toLowerCaseASCII s = map (\<lambda>c. if 0x41 \<le> c \<and> c \<le> 0x5A then c + 0x20 else c) s"

definition sampleHostnameOf :: "jsstring \<Rightarrow> jsstring option" where
  "sampleHostnameOf u =
     (if u = js ''https://www.a.com/x'' then Some (js ''www.a.com'')
      else if u = js ''https://awww.example.com/x'' then Some (js ''awww.example.com'')
      else None)"

definition sampleArticle :: "jsstring \<Rightarrow> jsstring \<Rightarrow> jsstring \<Rightarrow> dateval \<Rightarrow> Article" where
  "sampleArticle i t u d =
     \<lparr> id = i, title = t, url = u, source = js ''Feed'', source_domain = js ''a.com'',
       source_category = js ''research'', source_priority = 1, pubDate = d,
       published_at = Missing, metaDescription = [], crawledAt = Missing, category = None,
       difficulty = None, confidence = None, entities = [], summary = None, language = None,
       processed_at = Missing, rejectedReason = None, confidenceThreshold = None,
       rejected_at = Missing \<rparr>"

definition sampleSource :: Source where
  "sampleSource = \<lparr> src_name = js ''Feed'', src_url = js ''https://www.a.com/rss'',
                     src_category = js ''research'', src_priority = 1 \<rparr>"

text \<open>The run is dated 2025-11-03T00:00:00Z; the item is dated one day later.\<close>

definition NOW :: int where
  "NOW = 1762128000000"

definition futureItem :: RawItem where
  "futureItem =
     \<lparr> item_title = Some (js ''[Tag] AI wins''), item_link = Some (js ''https://www.a.com/x''),
       item_guid = None, item_contentSnippet = Some (js ''An AI system wins.''),
       item_content = None, item_summary = None,
       item_pubDate = Stamp 1762214400000, item_isoDate = Missing, item_published = Missing \<rparr>"

definition sampleClock :: ItemClock where
  "sampleClock = \<lparr> tDefault = 1762128000000, tNow = 1762128000001,
                    tCutoff = 1762128000002, tCrawled = 1762128000003 \<rparr>"

definition sampleRunClock :: RunClock where
  "sampleRunClock =
     \<lparr> tArticle = (\<lambda>i. 1762128000000 + int i), tCleanup = 1762128000100,
       tProcessedAt = 1762128000101, tToday = 1762128000102, tDailyProcessedAt = 1762128000103,
       tRejectedCleanup = 1762128000104, tRejectedUpdatedAt = 1762128000105 \<rparr>"

definition sampleAnalyse :: "Article \<Rightarrow> Analysis" where
  "sampleAnalyse a =
     \<lparr> an_category = js ''industry-news'',
       an_confidence = (if title a = js ''Vague post'' then 0.2 else 0.6),
       an_entities = [], an_difficulty = 3, an_summary = title a \<rparr>"

definition sampleFiles :: "Article list \<Rightarrow> Files" where
  "sampleFiles raw =
     \<lparr> rawFile = Inr raw, processedFile = Inl (Error (js ''ENOENT'')),
       rejectedFile = Inl (Error (js ''ENOENT'')), writeError = (\<lambda>p. None) \<rparr>"

definition failingFiles :: "Article list \<Rightarrow> Files" where
  "failingFiles raw =
     \<lparr> rawFile = Inr raw, processedFile = Inl (Error (js ''ENOENT'')),
       rejectedFile = Inl (Error (js ''ENOENT'')),
       writeError = (\<lambda>p. if p = LatestProcessed then Some (Error (js ''EACCES'')) else None) \<rparr>"

section \<open>Properties of generateId\<close>

lemma ToInt32_sint: "ToInt32 x = sint (word_of_int x :: 32 word)"
proof -
  define m where "m = x mod 4294967296"
  have m: "0 \<le> m" "m < 4294967296" by (simp_all add: m_def)
  have e: "(x + 2147483648) mod 4294967296 = (m + 2147483648) mod 4294967296"
    unfolding m_def by (simp add: mod_add_left_eq)
  have "(m + 2147483648) mod 4294967296 - 2147483648 =
        (if 2147483648 \<le> m then m - 4294967296 else m)"
  proof (cases "2147483648 \<le> m")
    case True
    have "m + 2147483648 = (m - 2147483648) + 4294967296"
      by simp
    then have "(m + 2147483648) mod 4294967296 = (m - 2147483648) mod 4294967296"
      by (simp only: mod_add_self2)
    also have "\<dots> = m - 2147483648"
      using True m by (simp add: mod_pos_pos_trivial)
    finally show ?thesis using True by simp
  next
    case False
    then have "(m + 2147483648) mod 4294967296 = m + 2147483648"
      using m by (simp add: mod_pos_pos_trivial)
    then show ?thesis using False by simp
  qed
  then show ?thesis
    by (simp add: ToInt32_def Let_def int_word_sint e m_def)
qed

lemma word_of_sint32: "word_of_int (sint w) = (w :: 32 word)"
  by simp

lemma jsShiftLeft_word: "jsShiftLeft (sint w) 5 = sint (push_bit 5 w :: 32 word)"
proof -
  have "ToInt32 (sint w) = sint w"
    by (simp only: ToInt32_sint word_of_sint32)
  moreover have "(word_of_int (sint w * 2 ^ (5 mod 32)) :: 32 word) = push_bit 5 w"
    by (simp only: wi_hom_syms word_of_sint32 push_bit_eq_mult) simp
  ultimately show ?thesis
    by (simp only: jsShiftLeft_def ToInt32_sint)
qed

lemma jsBitAnd_self: "jsBitAnd x x = ToInt32 x"
  by (simp add: jsBitAnd_def)

lemma hash_step_word:
  "jsBitAnd ((jsShiftLeft (sint w) 5 - sint w) + charCode c)
            ((jsShiftLeft (sint w) 5 - sint w) + charCode c) = sint (step32 w c)"
proof -
  have "(word_of_int ((sint (push_bit 5 w :: 32 word) - sint w) + uint c) :: 32 word)
          = step32 w c"
    by (simp only: wi_hom_syms word_of_sint32 step32_def ucast_eq)
  then show ?thesis
    by (simp only: jsBitAnd_self jsShiftLeft_word ToInt32_sint charCode_def)
qed

lemma hashLoop_word: "hashLoop (sint w) s = sint (foldl step32 w s)"
proof (induction s arbitrary: w)
  case Nil
  show ?case by simp
next
  case (Cons c s)
  show ?case
    using Cons.IH [of "step32 w c"]
    by (simp only: hashLoop.simps Let_def hash_step_word foldl_Cons)
qed

lemma digits_table:
  "map digitValue (js ''0123456789abcdefghijklmnopqrstuvwxyz'') = [0..<36]"
  by (simp add: js_def digitValue_def upt_rec)

lemma digitValue_digit36: "d < 36 \<Longrightarrow> digitValue (digit36 d) = d"
proof -
  assume d: "d < 36"
  have l: "length (js ''0123456789abcdefghijklmnopqrstuvwxyz'') = 36"
    by (simp add: js_def)
  have "digitValue (digit36 d) = map digitValue (js ''0123456789abcdefghijklmnopqrstuvwxyz'') ! d"
    using d l by (simp add: digit36_def)
  also have "\<dots> = [0..<36] ! d"
    by (simp only: digits_table)
  also have "\<dots> = d"
    using d by simp
  finally show ?thesis .
qed

lemma value36_snoc: "value36 (s @ [c]) = 36 * value36 s + digitValue c"
  by (simp add: value36_def)

lemma value36_toString36: "value36 (toString36 n) = n"
proof (induction n rule: toString36.induct)
  case (1 n)
  show ?case
  proof (cases "n < 36")
    case True
    then show ?thesis
      by (simp add: toString36.simps [of n] value36_def digitValue_digit36)
  next
    case False
    with "1" have "value36 (toString36 (n div 36)) = n div 36" by simp
    with False show ?thesis
      by (simp add: toString36.simps [of n] value36_snoc digitValue_digit36)
  qed
qed

text \<open>
  C1. \<open>generateId\<close> is a function of its two arguments alone (it reads no clock, no
  global and no random source, so equal inputs give equal ids), and its value is the
  base-36 rendering of the absolute value of the 32-bit signed integer accumulated by
  \<open>hash := ((hash << 5) - hash) + charCode(c)\<close> over the code units of \<open>title + url\<close>,
  starting from 0: it is what \<open>toString(36)\<close> writes for that number, and read back as a
  base-36 numeral it denotes that number.
\<close>

theorem generateId_is_base36_of_abs_hash32:
  "generateId t u = toString36 (nat \<bar>sint (hash32 (t @ u))\<bar>) \<and>
   value36 (generateId t u) = nat \<bar>sint (hash32 (t @ u))\<bar>"
  using hashLoop_word [of 0 "t @ u"]
  by (simp add: generateId_def hash32_def value36_toString36)

text \<open>An id computed: the hash of \<open>"AI wins" + "https://a.com/x"\<close> is 465459455.\<close>

lemma hash32_example: "hash32 (js ''AI winshttps://a.com/x'') = 465459455"
  by (simp add: hash32_def step32_def js_def)

lemma generateId_example: "generateId (js ''AI wins'') (js ''https://a.com/x'') = js ''7p4etb''"
proof -
  have "js ''AI wins'' @ js ''https://a.com/x'' = js ''AI winshttps://a.com/x''"
    by (simp add: js_def)
  then have "generateId (js ''AI wins'') (js ''https://a.com/x'') = toString36 465459455"
    using hashLoop_word [of 0 "js ''AI winshttps://a.com/x''"] hash32_example
    by (simp add: generateId_def hash32_def)
  also have "\<dots> = js ''7p4etb''"
    by (simp add: toString36.simps digit36_def js_def)
  finally show ?thesis .
qed

text \<open>
  C10. The id depends on the concatenation \<open>title + url\<close> only: moving the boundary
  between title and url does not change it, and two (title, url) pairs with equal
  concatenations receive the same id.
\<close>

theorem generateId_concat_only:
  "generateId a (b @ c) = generateId (a @ b) c \<and>
   (t1 @ u1 = t2 @ u2 \<longrightarrow> generateId t1 u1 = generateId t2 u2)"
  by (simp add: generateId_def)

theorem generateId_concat_only_witness:
  "(js ''ab'', js ''c'') \<noteq> (js ''a'', js ''bc'') \<and>
   js ''ab'' @ js ''c'' = js ''a'' @ js ''bc'' \<and>
   generateId (js ''ab'') (js ''c'') = generateId (js ''a'') (js ''bc'')"
proof -
  have e: "js ''ab'' @ js ''c'' = js ''a'' @ js ''bc''"
    by (simp add: js_def)
  have d: "(js ''ab'', js ''c'') \<noteq> (js ''a'', js ''bc'')"
    by (simp add: js_def)
  from generateId_concat_only [of "js ''a''" "js ''b''" "js ''c''" "js ''ab''" "js ''c''" "js ''a''" "js ''bc''"] e d
  show ?thesis by blast
qed

section \<open>Properties of removeDuplicates\<close>

text \<open>
  The list \<open>unique\<close> only grows at its end, so the loop can be read from an empty one;
  one step of it either skips an article whose key was seen or keeps it and records the
  key.
\<close>

lemma removeDuplicatesLoop_fst:
  "fst (removeDuplicatesLoop lower xs (unique, seen))
     = unique @ fst (removeDuplicatesLoop lower xs ([], seen))"
proof (induction xs arbitrary: unique seen)
  case Nil
  show ?case by simp
next
  case (Cons x xs)
  show ?case
    using Cons.IH [of "unique @ [x]" "insert (dedupKey lower (title x)) seen"]
          Cons.IH [of "[x]" "insert (dedupKey lower (title x)) seen"]
          Cons.IH [of unique seen]
    by (simp add: Let_def)
qed

lemma removeDuplicatesLoop_Cons:
  "fst (removeDuplicatesLoop lower (x # xs) ([], seen)) =
     (if articleKey lower x \<in> seen then fst (removeDuplicatesLoop lower xs ([], seen))
      else x # fst (removeDuplicatesLoop lower xs ([], insert (articleKey lower x) seen)))"
  using removeDuplicatesLoop_fst [of lower xs "[x]" "insert (articleKey lower x) seen"]
  by (simp add: Let_def articleKey_def)

lemma loop_subseq: "subseq (fst (removeDuplicatesLoop lower xs ([], seen))) xs"
proof (induction xs arbitrary: seen)
  case Nil
  show ?case by simp
next
  case (Cons x xs)
  show ?case
    using Cons.IH [of seen] Cons.IH [of "insert (articleKey lower x) seen"]
    by (auto simp: removeDuplicatesLoop_Cons simp del: removeDuplicatesLoop.simps(2) intro: list_emb_Cons)
qed

lemma loop_keys:
  "articleKey lower ` set (fst (removeDuplicatesLoop lower xs ([], seen)))
     = articleKey lower ` set xs - seen"
proof (induction xs arbitrary: seen)
  case Nil
  show ?case by simp
next
  case (Cons x xs)
  show ?case
    using Cons.IH [of seen] Cons.IH [of "insert (articleKey lower x) seen"]
    by (auto simp: removeDuplicatesLoop_Cons simp del: removeDuplicatesLoop.simps(2))
qed

lemma loop_distinct:
  "distinct (map (articleKey lower) (fst (removeDuplicatesLoop lower xs ([], seen))))"
proof (induction xs arbitrary: seen)
  case Nil
  show ?case by simp
next
  case (Cons x xs)
  have "articleKey lower x \<notin>
          articleKey lower ` set (fst (removeDuplicatesLoop lower xs
                                        ([], insert (articleKey lower x) seen)))"
    by (simp add: loop_keys)
  with Cons.IH [of seen] Cons.IH [of "insert (articleKey lower x) seen"]
  show ?case by (simp add: removeDuplicatesLoop_Cons del: removeDuplicatesLoop.simps(2))
qed

lemma loop_find:
  "a \<in> set (fst (removeDuplicatesLoop lower xs ([], seen))) \<Longrightarrow>
   find (\<lambda>b. articleKey lower b = articleKey lower a) xs = Some a"
proof (induction xs arbitrary: seen)
  case Nil
  then show ?case by simp
next
  case (Cons x xs)
  show ?case
  proof (cases "articleKey lower x \<in> seen")
    case True
    with Cons.prems have a: "a \<in> set (fst (removeDuplicatesLoop lower xs ([], seen)))"
      by (simp add: removeDuplicatesLoop_Cons del: removeDuplicatesLoop.simps(2))
    then have "articleKey lower a
                 \<in> articleKey lower ` set (fst (removeDuplicatesLoop lower xs ([], seen)))"
      by blast
    then have "articleKey lower a \<notin> seen"
      by (simp add: loop_keys)
    with True have "articleKey lower x \<noteq> articleKey lower a"
      by auto
    with Cons.IH [OF a] show ?thesis by simp
  next
    case False
    with Cons.prems have "a = x \<or> a \<in> set (fst (removeDuplicatesLoop lower xs
                                                   ([], insert (articleKey lower x) seen)))"
      by (auto simp: removeDuplicatesLoop_Cons simp del: removeDuplicatesLoop.simps(2))
    then show ?thesis
    proof
      assume "a = x"
      then show ?thesis by simp
    next
      assume a: "a \<in> set (fst (removeDuplicatesLoop lower xs
                                  ([], insert (articleKey lower x) seen)))"
      then have "articleKey lower a
                   \<in> articleKey lower ` set (fst (removeDuplicatesLoop lower xs
                                                     ([], insert (articleKey lower x) seen)))"
        by blast
      then have "articleKey lower x \<noteq> articleKey lower a"
        by (auto simp: loop_keys)
      with Cons.IH [OF a] show ?thesis by simp
    qed
  qed
qed

text \<open>
  The key the code computes is the key as the specification words it: collapsing the
  white space, trimming and splitting on the space yields the words of the stripped
  title.
\<close>

lemma isWhiteSpace_space [simp]: "isWhiteSpace 0x20"
  by (simp add: isWhiteSpace_def)

lemma join_joinWords: "join 0x20 ws = joinWords ws"
  by (induction ws rule: joinWords.induct) simp_all

lemma wordsOf_nonWS_nonempty: "\<not> isWhiteSpace c \<Longrightarrow> wordsOf (c # s) \<noteq> []"
  by (simp split: list.splits)

lemma wordsOf_dropWhile: "wordsOf (dropWhile isWhiteSpace s) = wordsOf s"
  by (induction s) simp_all

lemma wordsOf_no_ws: "w \<in> set (wordsOf s) \<Longrightarrow> d \<in> set w \<Longrightarrow> \<not> isWhiteSpace d"
proof (induction s arbitrary: w)
  case Nil
  then show ?case by simp
next
  case (Cons c s)
  show ?case
  proof (cases "isWhiteSpace c")
    case True
    with Cons show ?thesis by simp
  next
    case False
    show ?thesis
    proof (cases s)
      case Nil
      with False Cons.prems show ?thesis by auto
    next
      case (Cons e r)
      show ?thesis
      proof (cases "isWhiteSpace e")
        case True
        with False Cons Cons.prems Cons.IH show ?thesis by auto
      next
        case nw: False
        then obtain v vs where v: "wordsOf s = v # vs"
          using wordsOf_nonWS_nonempty [of e r] Cons by (cases "wordsOf s") auto
        with False nw Cons Cons.prems have "w = c # v \<or> w \<in> set vs" by auto
        then show ?thesis
        proof
          assume "w = c # v"
          with Cons.prems(2) have "d = c \<or> d \<in> set v" by auto
          then show ?thesis using False Cons.IH [of v] v by auto
        next
          assume "w \<in> set vs"
          then show ?thesis using Cons.IH [of w] v Cons.prems(2) by auto
        qed
      qed
    qed
  qed
qed

lemma wordsOf_words_nonempty: "[] \<notin> set (wordsOf s)"
proof (induction s)
  case Nil
  show ?case by simp
next
  case (Cons c s)
  then show ?case by (auto split: list.splits)
qed

lemma joinWords_nonempty: "w \<noteq> [] \<Longrightarrow> joinWords (w # ws) \<noteq> []"
  by (cases ws) simp_all

lemma joinWords_wordsOf_nonempty: "wordsOf s = w # ws \<Longrightarrow> joinWords (w # ws) \<noteq> []"
proof -
  assume a: "wordsOf s = w # ws"
  with wordsOf_words_nonempty [of s] have "w \<noteq> []" by auto
  then show ?thesis by (rule joinWords_nonempty)
qed

lemma dropTrailing_Cons:
  "rev (dropWhile P (rev (a # x))) =
     (if P a \<and> rev (dropWhile P (rev x)) = [] then [] else a # rev (dropWhile P (rev x)))"
proof (cases "\<forall>y \<in> set x. P y")
  case True
  then have "dropWhile P (rev x) = []" by simp
  with True show ?thesis by (simp add: dropWhile_append)
next
  case False
  then have "dropWhile P (rev x) \<noteq> []" by (simp add: dropWhile_eq_Nil_conv)
  with False show ?thesis by (auto simp: dropWhile_append)
qed

lemma collapse_trailing:
  "rev (dropWhile isWhiteSpace (rev (collapseWhitespace s))) =
     (case wordsOf s of
        [] \<Rightarrow> []
      | w # ws \<Rightarrow> (if s \<noteq> [] \<and> isWhiteSpace (hd s) then [0x20] else []) @ joinWords (w # ws))"
proof -
  define dt where "dt x = rev (dropWhile isWhiteSpace (rev x))" for x :: jsstring
  have dtC: "dt (a # x) = (if isWhiteSpace a \<and> dt x = [] then [] else a # dt x)" for a x
    unfolding dt_def by (rule dropTrailing_Cons)
  have "dt (collapseWhitespace s) =
     (case wordsOf s of
        [] \<Rightarrow> []
      | w # ws \<Rightarrow> (if s \<noteq> [] \<and> isWhiteSpace (hd s) then [0x20] else []) @ joinWords (w # ws))"
  proof (induction s rule: collapseWhitespace.induct)
    case 1
    show ?case by (simp add: dt_def)
  next
    case (2 c s)
    show ?case
    proof (cases "isWhiteSpace c")
      case True
      let ?t = "dropWhile isWhiteSpace s"
      have h: "?t = [] \<or> \<not> isWhiteSpace (hd ?t)"
        by (metis hd_dropWhile)
      from True "2.IH"(1) h
      have ih: "dt (collapseWhitespace ?t) =
                  (case wordsOf s of [] \<Rightarrow> [] | w # ws \<Rightarrow> joinWords (w # ws))"
        by (auto simp: wordsOf_dropWhile split: list.splits)
      have "collapseWhitespace (c # s) = 0x20 # collapseWhitespace ?t"
        using True by simp
      then have "dt (collapseWhitespace (c # s)) =
                   (if dt (collapseWhitespace ?t) = [] then [] else 0x20 # dt (collapseWhitespace ?t))"
        by (simp add: dtC)
      with True show ?thesis
        by (auto simp: ih joinWords_wordsOf_nonempty split: list.splits)
    next
      case False
      with "2.IH"(2)
      have ih: "dt (collapseWhitespace s) =
                  (case wordsOf s of
                     [] \<Rightarrow> []
                   | w # ws \<Rightarrow> (if s \<noteq> [] \<and> isWhiteSpace (hd s) then [0x20] else []) @ joinWords (w # ws))"
        by simp
      have "collapseWhitespace (c # s) = c # collapseWhitespace s"
        using False by simp
      then have step: "dt (collapseWhitespace (c # s)) = c # dt (collapseWhitespace s)"
        using False by (simp add: dtC)
      show ?thesis
      proof (cases s)
        case Nil
        with False step ih show ?thesis by simp
      next
        case (Cons d r)
        show ?thesis
        proof (cases "isWhiteSpace d")
          case True
          have "wordsOf (c # s) = [c] # wordsOf s"
            using False True Cons by simp
          with False True Cons show ?thesis
            unfolding step ih by (cases "wordsOf s") simp_all
        next
          case nw: False
          then obtain v vs where v: "wordsOf s = v # vs"
            using wordsOf_nonWS_nonempty [of d r] Cons by (cases "wordsOf s") auto
          have "wordsOf (c # s) = (c # v) # vs"
            using False nw Cons v by simp
          with False nw Cons v show ?thesis
            unfolding step ih by (cases vs) simp_all
        qed
      qed
    qed
  qed
  then show ?thesis by (simp add: dt_def)
qed

lemma collapse_head:
  "s = [] \<or> \<not> isWhiteSpace (hd s) \<Longrightarrow>
   dropWhile isWhiteSpace (collapseWhitespace s) = collapseWhitespace s"
  by (cases s) auto

lemma trim_collapse: "trim (collapseWhitespace s) = joinWords (wordsOf s)"
proof (cases "s \<noteq> [] \<and> isWhiteSpace (hd s)")
  case True
  then obtain c r where s: "s = c # r" and c: "isWhiteSpace c"
    by (cases s) auto
  let ?t = "dropWhile isWhiteSpace r"
  have h: "?t = [] \<or> \<not> isWhiteSpace (hd ?t)"
    by (metis hd_dropWhile)
  have "dropWhile isWhiteSpace (collapseWhitespace s) = collapseWhitespace ?t"
    using s c collapse_head [OF h] by simp
  then have "trim (collapseWhitespace s) = rev (dropWhile isWhiteSpace (rev (collapseWhitespace ?t)))"
    by (simp add: trim_def)
  also have "\<dots> = joinWords (wordsOf ?t)"
    using h by (auto simp: collapse_trailing split: list.splits)
  also have "\<dots> = joinWords (wordsOf s)"
    using s c by (simp add: wordsOf_dropWhile)
  finally show ?thesis .
next
  case False
  then have "dropWhile isWhiteSpace (collapseWhitespace s) = collapseWhitespace s"
    by (intro collapse_head) auto
  then have "trim (collapseWhitespace s) = rev (dropWhile isWhiteSpace (rev (collapseWhitespace s)))"
    by (simp add: trim_def)
  also have "\<dots> = joinWords (wordsOf s)"
    using False by (auto simp: collapse_trailing split: list.splits)
  finally show ?thesis .
qed

lemma split_no_sep: "sep \<notin> set w \<Longrightarrow> split sep (w @ sep # rest) = w # split sep rest"
  by (induction w) (auto split: list.splits)

lemma split_no_sep_end: "sep \<notin> set w \<Longrightarrow> split sep w = [w]"
  by (induction w) (auto split: list.splits)

lemma split_joinWords:
  "ws \<noteq> [] \<Longrightarrow> (\<forall>w \<in> set ws. 0x20 \<notin> set w) \<Longrightarrow> split 0x20 (joinWords ws) = ws"
proof (induction ws rule: joinWords.induct)
  case 1
  then show ?case by simp
next
  case (2 w)
  then show ?case by (simp add: split_no_sep_end)
next
  case (3 w v ws)
  then show ?case by (simp add: split_no_sep)
qed

lemma wordsOf_no_space: "w \<in> set (wordsOf s) \<Longrightarrow> 0x20 \<notin> set w"
  using wordsOf_no_ws [of w s "0x20"] by auto

lemma keyClass_letters_digits:
  "(c \<in> set (js ''abcdefghijklmnopqrstuvwxyz0123456789'')) =
     ((0x61 \<le> c \<and> c \<le> 0x7A) \<or> (0x30 \<le> c \<and> c \<le> 0x39))"
proof -
  have e: "c = of_nat (unat c)" by simp
  have m: "(c \<in> set (js ''abcdefghijklmnopqrstuvwxyz0123456789'')) =
           (unat c \<in> set ([97..<123] @ [48..<58]))"
    by (subst e) (simp add: js_def upt_rec word_unat_eq_iff)
  show ?thesis
    unfolding m by (simp add: word_le_nat_alt) arith
qed

lemma inKeyClass_isPunctuation: "inKeyClass c = (\<not> isPunctuation c)"
  by (auto simp: inKeyClass_def isPunctuation_def keyClass_letters_digits)

lemma stripPunctuation_spec: "stripPunctuation s = filter (\<lambda>c. \<not> isPunctuation c) s"
proof -
  have "inKeyClass = (\<lambda>c. \<not> isPunctuation c)"
    by (simp add: fun_eq_iff inKeyClass_isPunctuation)
  then show ?thesis by (simp add: stripPunctuation_def)
qed

lemma dedupKey_normalizedTitleKey: "dedupKey lower t = normalizedTitleKey lower t"
proof -
  let ?s = "stripPunctuation (lower t)"
  show ?thesis
  proof (cases "wordsOf ?s")
    case Nil
    then show ?thesis
      by (simp add: dedupKey_def normalizedTitleKey_def trim_collapse
          stripPunctuation_spec [symmetric])
  next
    case (Cons w ws)
    have "\<forall>v \<in> set (wordsOf ?s). 0x20 \<notin> set v"
      using wordsOf_no_space by blast
    with Cons have "split 0x20 (joinWords (wordsOf ?s)) = wordsOf ?s"
      by (intro split_joinWords) simp_all
    then show ?thesis
      by (simp add: dedupKey_def normalizedTitleKey_def trim_collapse join_joinWords
          stripPunctuation_spec [symmetric])
  qed
qed


lemma articleKey_spec: "articleKey lower = (\<lambda>a. normalizedTitleKey lower (title a))"
  by (simp add: fun_eq_iff articleKey_def dedupKey_normalizedTitleKey)

text \<open>
  C3. The key \<open>removeDuplicates\<close> computes for a title is the title in lower case, with
  the characters outside \<open>a-z\<close>, \<open>0-9\<close> and white space removed, its first 8 words joined
  by single spaces. With respect to that key, \<open>removeDuplicates\<close> keeps the input order
  (its result is a subsequence of the input), keeps exactly one article for each key that
  occurs (the keys of the result are pairwise distinct and are the keys of the input),
  and the article kept for a key is the earliest one of the input that bears it. In
  particular two entries with the same key collapse to the first, whatever their URLs,
  and two entries with different keys are both kept.
\<close>

theorem removeDuplicates_first_occurrence_wins:
  "dedupKey lower t = normalizedTitleKey lower t \<and>
   subseq (removeDuplicates lower arts) arts \<and>
   distinct (map (\<lambda>a. normalizedTitleKey lower (title a)) (removeDuplicates lower arts)) \<and>
   (\<lambda>a. normalizedTitleKey lower (title a)) ` set (removeDuplicates lower arts)
     = (\<lambda>a. normalizedTitleKey lower (title a)) ` set arts \<and>
   (\<forall>a \<in> set (removeDuplicates lower arts).
      find (\<lambda>b. normalizedTitleKey lower (title b) = normalizedTitleKey lower (title a)) arts
        = Some a) \<and>
   (normalizedTitleKey lower (title a1) = normalizedTitleKey lower (title a2) \<longrightarrow>
      removeDuplicates lower [a1, a2] = [a1]) \<and>
   (normalizedTitleKey lower (title a1) \<noteq> normalizedTitleKey lower (title a2) \<longrightarrow>
      removeDuplicates lower [a1, a2] = [a1, a2])"
proof -
  have "subseq (removeDuplicates lower arts) arts \<and>
   distinct (map (articleKey lower) (removeDuplicates lower arts)) \<and>
   articleKey lower ` set (removeDuplicates lower arts) = articleKey lower ` set arts \<and>
   (\<forall>a \<in> set (removeDuplicates lower arts).
      find (\<lambda>b. articleKey lower b = articleKey lower a) arts = Some a) \<and>
   (articleKey lower a1 = articleKey lower a2 \<longrightarrow> removeDuplicates lower [a1, a2] = [a1]) \<and>
   (articleKey lower a1 \<noteq> articleKey lower a2 \<longrightarrow> removeDuplicates lower [a1, a2] = [a1, a2])"
    by (simp add: removeDuplicates_def loop_subseq loop_distinct loop_keys loop_find
        removeDuplicatesLoop_Cons del: removeDuplicatesLoop.simps(2))
  then show ?thesis
    by (simp add: articleKey_spec dedupKey_normalizedTitleKey)
qed

text \<open>
  Three titles: \<open>"AI wins!"\<close> and \<open>"ai  WINS"\<close> have the key \<open>"ai wins"\<close> and collapse to
  the first; \<open>"AI loses"\<close> has another key and is kept. Two titles that agree on their
  first 8 words and differ in the ninth collapse as well.
\<close>

theorem removeDuplicates_first_occurrence_wins_witness:
  "dedupKey toLowerCaseASCII (js ''AI wins!'') = js ''ai wins'' \<and>
   dedupKey toLowerCaseASCII (js ''ai  WINS'') = js ''ai wins'' \<and>
   dedupKey toLowerCaseASCII (js ''AI loses'') = js ''ai loses'' \<and>
   dedupKey toLowerCaseASCII (js ''One two three four five six seven eight nine'')
     = js ''one two three four five six seven eight'' \<and>
   dedupKey toLowerCaseASCII (js ''one, two three four five six seven eight TEN'')
     = js ''one two three four five six seven eight'' \<and>
   url (sampleArticle (js ''1'') (js ''AI wins!'') (js ''https://a.com/x'') (Stamp 0))
     \<noteq> url (sampleArticle (js ''2'') (js ''ai  WINS'') (js ''https://b.com/y'') (Stamp 0)) \<and>
   removeDuplicates toLowerCaseASCII
     [sampleArticle (js ''1'') (js ''AI wins!'') (js ''https://a.com/x'') (Stamp 0),
      sampleArticle (js ''2'') (js ''ai  WINS'') (js ''https://b.com/y'') (Stamp 0)]
     = [sampleArticle (js ''1'') (js ''AI wins!'') (js ''https://a.com/x'') (Stamp 0)] \<and>
   removeDuplicates toLowerCaseASCII
     [sampleArticle (js ''1'') (js ''AI wins!'') (js ''https://a.com/x'') (Stamp 0),
      sampleArticle (js ''3'') (js ''AI loses'') (js ''https://c.com/z'') (Stamp 0)]
     = [sampleArticle (js ''1'') (js ''AI wins!'') (js ''https://a.com/x'') (Stamp 0),
        sampleArticle (js ''3'') (js ''AI loses'') (js ''https://c.com/z'') (Stamp 0)] \<and>
   removeDuplicates toLowerCaseASCII
     [sampleArticle (js ''4'') (js ''One two three four five six seven eight nine'')
        (js ''https://a.com/9'') (Stamp 0),
      sampleArticle (js ''5'') (js ''one, two three four five six seven eight TEN'')
        (js ''https://b.com/10'') (Stamp 0)]
     = [sampleArticle (js ''4'') (js ''One two three four five six seven eight nine'')
          (js ''https://a.com/9'') (Stamp 0)] \<and>
   removeDuplicates toLowerCaseASCII
     [sampleArticle (js ''1'') (js ''AI wins!'') (js ''https://a.com/x'') (Stamp 0),
      sampleArticle (js ''2'') (js ''ai  WINS'') (js ''https://b.com/y'') (Stamp 0),
      sampleArticle (js ''3'') (js ''AI loses'') (js ''https://c.com/z'') (Stamp 0)]
     = [sampleArticle (js ''1'') (js ''AI wins!'') (js ''https://a.com/x'') (Stamp 0),
        sampleArticle (js ''3'') (js ''AI loses'') (js ''https://c.com/z'') (Stamp 0)] \<and>
   find (\<lambda>b. normalizedTitleKey toLowerCaseASCII (title b) = js ''ai wins'')
     [sampleArticle (js ''1'') (js ''AI wins!'') (js ''https://a.com/x'') (Stamp 0),
      sampleArticle (js ''2'') (js ''ai  WINS'') (js ''https://b.com/y'') (Stamp 0),
      sampleArticle (js ''3'') (js ''AI loses'') (js ''https://c.com/z'') (Stamp 0)]
     = Some (sampleArticle (js ''1'') (js ''AI wins!'') (js ''https://a.com/x'') (Stamp 0))"
proof -
  let ?L = toLowerCaseASCII
  let ?a = "sampleArticle (js ''1'') (js ''AI wins!'') (js ''https://a.com/x'') (Stamp 0)"
  let ?b = "sampleArticle (js ''2'') (js ''ai  WINS'') (js ''https://b.com/y'') (Stamp 0)"
  let ?c = "sampleArticle (js ''3'') (js ''AI loses'') (js ''https://c.com/z'') (Stamp 0)"
  let ?d = "sampleArticle (js ''4'') (js ''One two three four five six seven eight nine'')
              (js ''https://a.com/9'') (Stamp 0)"
  let ?e = "sampleArticle (js ''5'') (js ''one, two three four five six seven eight TEN'')
              (js ''https://b.com/10'') (Stamp 0)"
  have ta: "title ?a = js ''AI wins!''" and tb: "title ?b = js ''ai  WINS''"
    and tc: "title ?c = js ''AI loses''"
    and td: "title ?d = js ''One two three four five six seven eight nine''"
    and te: "title ?e = js ''one, two three four five six seven eight TEN''"
    by (simp_all add: sampleArticle_def)
  have ka: "normalizedTitleKey ?L (js ''AI wins!'') = js ''ai wins''"
    by (simp add: normalizedTitleKey_def isPunctuation_def toLowerCaseASCII_def js_def
        isWhiteSpace_def)
  have kb: "normalizedTitleKey ?L (js ''ai  WINS'') = js ''ai wins''"
    by (simp add: normalizedTitleKey_def isPunctuation_def toLowerCaseASCII_def js_def
        isWhiteSpace_def)
  have kc: "normalizedTitleKey ?L (js ''AI loses'') = js ''ai loses''"
    by (simp add: normalizedTitleKey_def isPunctuation_def toLowerCaseASCII_def js_def
        isWhiteSpace_def)
  have kd: "normalizedTitleKey ?L (js ''One two three four five six seven eight nine'')
              = js ''one two three four five six seven eight''"
    by (simp add: normalizedTitleKey_def isPunctuation_def toLowerCaseASCII_def js_def
        isWhiteSpace_def)
  have ke: "normalizedTitleKey ?L (js ''one, two three four five six seven eight TEN'')
              = js ''one two three four five six seven eight''"
    by (simp add: normalizedTitleKey_def isPunctuation_def toLowerCaseASCII_def js_def
        isWhiteSpace_def)
  have ne: "js ''ai wins'' \<noteq> js ''ai loses''"
    by (simp add: js_def)
  have u: "url ?a \<noteq> url ?b"
    by (simp add: sampleArticle_def js_def)
  note key = removeDuplicates_first_occurrence_wins [THEN conjunct1]
  have da: "dedupKey ?L (js ''AI wins!'') = js ''ai wins''"
    using key [of ?L "js ''AI wins!''"] ka by simp
  have db: "dedupKey ?L (js ''ai  WINS'') = js ''ai wins''"
    using key [of ?L "js ''ai  WINS''"] kb by simp
  have dc: "dedupKey ?L (js ''AI loses'') = js ''ai loses''"
    using key [of ?L "js ''AI loses''"] kc by simp
  have dd: "dedupKey ?L (js ''One two three four five six seven eight nine'')
              = js ''one two three four five six seven eight''"
    using key [of ?L "js ''One two three four five six seven eight nine''"] kd by simp
  have de: "dedupKey ?L (js ''one, two three four five six seven eight TEN'')
              = js ''one two three four five six seven eight''"
    using key [of ?L "js ''one, two three four five six seven eight TEN''"] ke by simp
  note pair = removeDuplicates_first_occurrence_wins
      [THEN conjunct2, THEN conjunct2, THEN conjunct2, THEN conjunct2, THEN conjunct2]
  have rab: "removeDuplicates ?L [?a, ?b] = [?a]"
    by (rule pair [THEN conjunct1, THEN mp]) (simp only: ta tb ka kb)
  have rac: "removeDuplicates ?L [?a, ?c] = [?a, ?c]"
    by (rule pair [THEN conjunct2, THEN mp]) (simp only: ta tc ka kc ne not_False_eq_True)
  have rde: "removeDuplicates ?L [?d, ?e] = [?d]"
    by (rule pair [THEN conjunct1, THEN mp]) (simp only: td te kd ke)
  have rabc: "removeDuplicates ?L [?a, ?b, ?c] = [?a, ?c]"
    using ne by (simp add: removeDuplicates_def Let_def ta tb tc da db dc)
  note first = removeDuplicates_first_occurrence_wins
      [of ?L _ "[?a, ?b, ?c]", THEN conjunct2, THEN conjunct2, THEN conjunct2, THEN conjunct2,
       THEN conjunct1, THEN bspec, of ?a]
  have f: "find (\<lambda>b. normalizedTitleKey ?L (title b) = js ''ai wins'') [?a, ?b, ?c] = Some ?a"
    using first by (simp only: rabc ta ka) simp
  from da db dc dd de u rab rac rde rabc f show ?thesis
    by (simp only: simp_thms)
qed

section \<open>Properties of extractDomain\<close>

lemma extractDomain_unparsable:
  "hostnameOf u = None \<Longrightarrow> extractDomain hostnameOf u = js ''unknown''"
  by (simp add: extractDomain_def)

lemma extractDomain_leading_www:
  "hostnameOf u = Some (js ''www.'' @ rest) \<Longrightarrow> extractDomain hostnameOf u = rest"
  by (cases rest) (simp_all add: extractDomain_def js_def)

text \<open>
  C9 at the URL \<open>https://awww.example.com/x\<close>, whose hostname \<open>awww.example.com\<close> does not
  begin with \<open>www.\<close>: the first occurrence of \<open>www.\<close> is removed from inside the name.
\<close>

theorem extractDomain_removes_inner_www:
  "sampleHostnameOf (js ''https://awww.example.com/x'') = Some (js ''awww.example.com'') \<and>
   take 4 (js ''awww.example.com'') \<noteq> js ''www.'' \<and>
   extractDomain sampleHostnameOf (js ''https://awww.example.com/x'') = js ''aexample.com''"
  by (simp add: extractDomain_def sampleHostnameOf_def js_def)

section \<open>Properties of the date handling of crawlFeed\<close>

lemma crawlItem_None_if_unparseable:
  "itemDate clk item = None \<Longrightarrow> crawlItem relevant hostnameOf clk src item = None"
  by (simp add: crawlItem_def Let_def split: option.splits list.splits)

lemma crawlItem_Some_pubDate:
  assumes "crawlItem relevant hostnameOf clk src item = Some a"
  shows "\<exists>parsed. itemDate clk item = Some parsed \<and>
           pubDate a = Stamp (if parsed > tNow clk then tNow clk else parsed)"
proof (cases "itemDate clk item")
  case None
  with assms show ?thesis by (simp add: crawlItem_None_if_unparseable)
next
  case (Some parsed)
  with assms have "pubDate a = Stamp (if parsed > tNow clk then tNow clk else parsed)"
    by (auto simp: crawlItem_def Let_def split: option.splits list.splits if_splits)
  with Some show ?thesis by simp
qed

lemma crawlItem_future_kept:
  assumes "itemDate clk item = Some parsed" and "parsed > tNow clk"
    and "itemUrl item = Some (u # rl)"
    and "cleanTitle (case item_title item of Some t \<Rightarrow> t | None \<Rightarrow> []) \<noteq> []"
    and "relevant src (cleanTitle (case item_title item of Some t \<Rightarrow> t | None \<Rightarrow> []))
           (itemDescription item)"
    and "tCutoff clk - daysBackFor (src_category src) * DAY_MS \<le> tNow clk"
  shows "\<exists>a. crawlItem relevant hostnameOf clk src item = Some a \<and> pubDate a = Stamp (tNow clk)"
  using assms by (simp add: crawlItem_def Let_def)

lemma itemDate_precedence:
  "itemDate clk item =
     (case find truthyDate [item_pubDate item, item_isoDate item, item_published item] of
        Some d \<Rightarrow> newDate d
      | None \<Rightarrow> Some (tDefault clk))"
  by (simp add: itemDate_def)

lemma crawlFeedLoop_map_filter:
  "crawlFeedLoop relevant hostnameOf src items found =
     found @ List.map_filter (\<lambda>(clk, item). crawlItem relevant hostnameOf clk src item) items"
  by (induction items arbitrary: found) (auto simp: List.map_filter_simps split: option.splits)

text \<open>
  C2. The date of an item is read from the first of \<open>pubDate\<close>, \<open>isoDate\<close>, \<open>published\<close>
  that is present, else it is the current time. An item whose date does not parse yields
  no article and adds nothing to the articles of the feed. An item dated strictly after
  \<open>now\<close> (that passed the earlier checks on title, URL and relevance) is kept, with its
  date set to \<open>now\<close>; the clock hypothesis says that fewer than \<open>daysBack\<close> days pass
  between the reading of \<open>now\<close> and the reading used for the cut-off. Every article
  produced, by the loop body and by \<open>crawlFeed\<close>, is dated at or before its \<open>now\<close>.
\<close>

theorem crawlItem_date_handling:
  "itemDate clk item =
     (case find truthyDate [item_pubDate item, item_isoDate item, item_published item] of
        Some d \<Rightarrow> newDate d
      | None \<Rightarrow> Some (tDefault clk)) \<and>
   (itemDate clk item = None \<longrightarrow>
      crawlItem relevant hostnameOf clk src item = None \<and>
      crawlFeedLoop relevant hostnameOf src ((clk, item) # items) found
        = crawlFeedLoop relevant hostnameOf src items found) \<and>
   (itemDate clk item = Some parsed \<and> parsed > tNow clk \<and>
    itemUrl item = Some (u # rl) \<and>
    cleanTitle (case item_title item of Some t \<Rightarrow> t | None \<Rightarrow> []) \<noteq> [] \<and>
    relevant src (cleanTitle (case item_title item of Some t \<Rightarrow> t | None \<Rightarrow> []))
      (itemDescription item) \<and>
    tCutoff clk - daysBackFor (src_category src) * DAY_MS \<le> tNow clk \<longrightarrow>
      (\<exists>a. crawlItem relevant hostnameOf clk src item = Some a \<and> pubDate a = Stamp (tNow clk))) \<and>
   (crawlItem relevant hostnameOf clk src item = Some a \<longrightarrow>
      (\<exists>t. pubDate a = Stamp t \<and> t \<le> tNow clk)) \<and>
   (\<forall>b \<in> set (crawlFeed relevant hostnameOf src (Some timedItems)).
      \<exists>(c, i) \<in> set timedItems.
        crawlItem relevant hostnameOf c src i = Some b \<and>
        (\<exists>t. pubDate b = Stamp t \<and> t \<le> tNow c))"
proof (intro conjI impI ballI)
  show "itemDate clk item =
     (case find truthyDate [item_pubDate item, item_isoDate item, item_published item] of
        Some d \<Rightarrow> newDate d
      | None \<Rightarrow> Some (tDefault clk))"
    by (rule itemDate_precedence)
next
  assume "itemDate clk item = None"
  then show "crawlItem relevant hostnameOf clk src item = None"
    by (rule crawlItem_None_if_unparseable)
next
  assume "itemDate clk item = None"
  then show "crawlFeedLoop relevant hostnameOf src ((clk, item) # items) found
        = crawlFeedLoop relevant hostnameOf src items found"
    by (simp add: crawlItem_None_if_unparseable)
next
  assume "itemDate clk item = Some parsed \<and> parsed > tNow clk \<and>
    itemUrl item = Some (u # rl) \<and>
    cleanTitle (case item_title item of Some t \<Rightarrow> t | None \<Rightarrow> []) \<noteq> [] \<and>
    relevant src (cleanTitle (case item_title item of Some t \<Rightarrow> t | None \<Rightarrow> []))
      (itemDescription item) \<and>
    tCutoff clk - daysBackFor (src_category src) * DAY_MS \<le> tNow clk"
  then show "\<exists>a. crawlItem relevant hostnameOf clk src item = Some a \<and> pubDate a = Stamp (tNow clk)"
    using crawlItem_future_kept [of clk item parsed u rl relevant src hostnameOf] by blast
next
  assume "crawlItem relevant hostnameOf clk src item = Some a"
  then show "\<exists>t. pubDate a = Stamp t \<and> t \<le> tNow clk"
    using crawlItem_Some_pubDate [of relevant hostnameOf clk src item a] by auto
next
  fix b
  assume "b \<in> set (crawlFeed relevant hostnameOf src (Some timedItems))"
  then have "b \<in> set (List.map_filter (\<lambda>(c, i). crawlItem relevant hostnameOf c src i)
                 (take (itemLimitFor (src_category src)) timedItems))"
    by (simp add: crawlFeed_def crawlFeedLoop_map_filter)
  then obtain c i where ci: "(c, i) \<in> set (take (itemLimitFor (src_category src)) timedItems)"
      and b: "crawlItem relevant hostnameOf c src i = Some b"
    by (auto simp: List.map_filter_def)
  from ci have "(c, i) \<in> set timedItems"
    by (rule in_set_takeD)
  moreover from b have "\<exists>t. pubDate b = Stamp t \<and> t \<le> tNow c"
    using crawlItem_Some_pubDate [of relevant hostnameOf c src i b] by auto
  ultimately show "\<exists>(c, i) \<in> set timedItems.
        crawlItem relevant hostnameOf c src i = Some b \<and>
        (\<exists>t. pubDate b = Stamp t \<and> t \<le> tNow c)"
    using b by blast
qed

theorem crawlItem_date_handling_witness:
  "itemDate sampleClock (futureItem \<lparr> item_pubDate := Garbage \<rparr>) = None \<and>
   crawlItem (\<lambda>s t d. True) sampleHostnameOf sampleClock sampleSource
     (futureItem \<lparr> item_pubDate := Garbage \<rparr>) = None \<and>
   itemDate sampleClock futureItem = Some 1762214400000 \<and>
   tNow sampleClock < 1762214400000 \<and>
   (\<exists>a. crawlItem (\<lambda>s t d. True) sampleHostnameOf sampleClock sampleSource futureItem = Some a \<and>
        pubDate a = Stamp (tNow sampleClock)) \<and>
   (\<exists>b t. crawlFeed (\<lambda>s t d. True) sampleHostnameOf sampleSource
             (Some [(sampleClock, futureItem)]) = [b] \<and>
          pubDate b = Stamp t \<and> t \<le> tNow sampleClock)"
proof -
  let ?rel = "\<lambda>(s::Source) (t::jsstring) (d::jsstring). True"
  let ?bad = "futureItem \<lparr> item_pubDate := Garbage \<rparr>"
  have g: "itemDate sampleClock ?bad = None"
    by (simp add: itemDate_def futureItem_def truthyDate_def newDate_def)
  note t1 = crawlItem_date_handling [of sampleClock ?bad ?rel sampleHostnameOf sampleSource]
  from t1 g have n: "crawlItem ?rel sampleHostnameOf sampleClock sampleSource ?bad = None"
    by blast
  have d: "itemDate sampleClock futureItem = Some 1762214400000"
    by (simp add: itemDate_def futureItem_def truthyDate_def newDate_def)
  have f: "tNow sampleClock < 1762214400000"
    by (simp add: sampleClock_def)
  have u: "itemUrl futureItem = Some (0x68 # js ''ttps://www.a.com/x'')"
    by (simp add: itemUrl_def futureItem_def truthyStr_def js_def)
  have c: "cleanTitle (case item_title futureItem of Some t \<Rightarrow> t | None \<Rightarrow> []) \<noteq> []"
    by (simp add: futureItem_def cleanTitle_def js_def Let_def trim_def isWhiteSpace_def
        isLineTerminator_def)
  have k: "tCutoff sampleClock - daysBackFor (src_category sampleSource) * DAY_MS
             \<le> tNow sampleClock"
    by (simp add: sampleClock_def sampleSource_def daysBackFor_def DAY_MS_def js_def)
  note t2 = crawlItem_date_handling [of sampleClock futureItem ?rel sampleHostnameOf sampleSource
      _ _ 1762214400000 "0x68" "js ''ttps://www.a.com/x''" _ "[(sampleClock, futureItem)]"]
  from t2 d f u c k
  obtain a where a: "crawlItem ?rel sampleHostnameOf sampleClock sampleSource futureItem = Some a"
      and p: "pubDate a = Stamp (tNow sampleClock)"
    by blast
  have l: "itemLimitFor (src_category sampleSource) = 15"
    by (simp add: itemLimitFor_def sampleSource_def js_def)
  from a l have e: "crawlFeed ?rel sampleHostnameOf sampleSource (Some [(sampleClock, futureItem)]) = [a]"
    by (simp add: crawlFeed_def)
  from t2 have "\<forall>b \<in> set (crawlFeed ?rel sampleHostnameOf sampleSource
                  (Some [(sampleClock, futureItem)])).
      \<exists>(c, i) \<in> set [(sampleClock, futureItem)].
        crawlItem ?rel sampleHostnameOf c sampleSource i = Some b \<and>
        (\<exists>t. pubDate b = Stamp t \<and> t \<le> tNow c)"
    by blast
  with e have "\<exists>t. pubDate a = Stamp t \<and> t \<le> tNow sampleClock"
    by simp
  with e have "\<exists>b t. crawlFeed ?rel sampleHostnameOf sampleSource
             (Some [(sampleClock, futureItem)]) = [b] \<and>
          pubDate b = Stamp t \<and> t \<le> tNow sampleClock"
    by blast
  with g n d f a p show ?thesis by blast
qed


section \<open>Properties of the rolling clean-up\<close>

lemma rollingCleanup_articles:
  "articles (rollingCleanup now xs) =
     filter (\<lambda>a. case publishedDate a of Some t \<Rightarrow> now - 15 * DAY_MS < t | None \<Rightarrow> False) xs"
  by (simp add: rollingCleanup_def Let_def)

lemma rollingCleanup_count:
  "cleanedUpCount (rollingCleanup now xs) = int (length xs) - int (length (articles (rollingCleanup now xs)))"
  by (simp add: rollingCleanup_def Let_def)

lemma rollingCleanup_applied:
  "cleanupApplied (rollingCleanup now xs) = (0 < cleanedUpCount (rollingCleanup now xs))"
  by (simp add: rollingCleanup_def Let_def)

lemma rollingCleanup_mem:
  "a \<in> set (articles (rollingCleanup now xs)) \<longleftrightarrow>
     a \<in> set xs \<and> (\<exists>t. publishedDate a = Some t \<and> now - 15 * DAY_MS < t)"
  by (auto simp: rollingCleanup_articles split: option.splits)

text \<open>
  C5. With the reference time fixed, a second clean-up of the cleaned articles returns
  the same articles and removes none: \<open>cleanedUpCount = 0\<close> and \<open>cleanupApplied = False\<close>.
\<close>

theorem rollingCleanup_idempotent:
  "rollingCleanup now (articles (rollingCleanup now xs)) =
     \<lparr> articles = articles (rollingCleanup now xs), cleanedUpCount = 0, cleanupApplied = False \<rparr>"
  by (simp add: rollingCleanup_def Let_def)

text \<open>
  C4 at the boundary, for a run at \<open>NOW\<close> and three articles dated 16, 15 and 14 days
  before: only the last one is kept; the article dated exactly 15 days before is dropped.
\<close>

theorem rollingCleanup_drops_boundary:
  "articles (rollingCleanup NOW
     [sampleArticle (js ''1'') (js ''Sixteen'') (js ''https://a.com/16'') (Stamp (NOW - 16 * DAY_MS)),
      sampleArticle (js ''2'') (js ''Fifteen'') (js ''https://a.com/15'') (Stamp (NOW - 15 * DAY_MS)),
      sampleArticle (js ''3'') (js ''Fourteen'') (js ''https://a.com/14'') (Stamp (NOW - 14 * DAY_MS))])
   = [sampleArticle (js ''3'') (js ''Fourteen'') (js ''https://a.com/14'') (Stamp (NOW - 14 * DAY_MS))]"
  by (simp add: rollingCleanup_articles publishedDate_def orDate_def truthyDate_def newDate_def
      sampleArticle_def NOW_def DAY_MS_def)

section \<open>Properties of the selection of articles to process\<close>

lemma articlesToProcess_filter:
  "articlesToProcess raw existing rejected =
     filter (\<lambda>a. id a \<notin> id ` set existing \<and> id a \<notin> id ` set rejected) raw"
  by (simp add: articlesToProcess_def Let_def)

lemma jsSliceTo_prefix: "prefix (jsSliceTo n xs) xs"
  by (simp add: jsSliceTo_def take_is_prefix)

lemma finalArticlesToProcess_prefix: "prefix (finalArticlesToProcess limit xs) xs"
  by (simp add: finalArticlesToProcess_def jsSliceTo_prefix split: option.splits)

text \<open>
  C7, as the code has it. The articles handed to the classification loop are a prefix, in
  raw order, of the raw articles whose id is neither in the processed snapshot nor in
  the rejected cache: all of them when \<open>PROCESSING_LIMIT\<close> is unset or 0, the first
  \<open>n\<close> for a positive limit \<open>n\<close>. So no article with an id already processed or
  rejected is ever handed to it.
\<close>

theorem finalArticlesToProcess_selection:
  "prefix (finalArticlesToProcess limit (articlesToProcess raw existing rejected))
     (filter (\<lambda>a. id a \<notin> id ` set existing \<and> id a \<notin> id ` set rejected) raw) \<and>
   (\<forall>a \<in> set (finalArticlesToProcess limit (articlesToProcess raw existing rejected)).
      a \<in> set raw \<and> id a \<notin> id ` set existing \<and> id a \<notin> id ` set rejected) \<and>
   (limit = None \<or> limit = Some 0 \<longrightarrow>
      finalArticlesToProcess limit (articlesToProcess raw existing rejected)
        = filter (\<lambda>a. id a \<notin> id ` set existing \<and> id a \<notin> id ` set rejected) raw) \<and>
   (limit = Some n \<and> 0 < n \<longrightarrow>
      finalArticlesToProcess limit (articlesToProcess raw existing rejected)
        = take (nat n) (filter (\<lambda>a. id a \<notin> id ` set existing \<and> id a \<notin> id ` set rejected) raw))"
proof (intro conjI ballI impI)
  show p: "prefix (finalArticlesToProcess limit (articlesToProcess raw existing rejected))
     (filter (\<lambda>a. id a \<notin> id ` set existing \<and> id a \<notin> id ` set rejected) raw)"
    using finalArticlesToProcess_prefix [of limit "articlesToProcess raw existing rejected"]
    by (simp add: articlesToProcess_filter)
  fix a
  assume "a \<in> set (finalArticlesToProcess limit (articlesToProcess raw existing rejected))"
  with p have m: "a \<in> set (filter (\<lambda>a. id a \<notin> id ` set existing \<and> id a \<notin> id ` set rejected) raw)"
    using set_mono_prefix by blast
  from m show "a \<in> set raw" by simp
  from m show "id a \<notin> id ` set existing" by simp
  from m show "id a \<notin> id ` set rejected" by simp
next
  assume "limit = None \<or> limit = Some 0"
  then show "finalArticlesToProcess limit (articlesToProcess raw existing rejected)
        = filter (\<lambda>a. id a \<notin> id ` set existing \<and> id a \<notin> id ` set rejected) raw"
    by (auto simp: finalArticlesToProcess_def articlesToProcess_filter)
next
  assume "limit = Some n \<and> 0 < n"
  then show "finalArticlesToProcess limit (articlesToProcess raw existing rejected)
        = take (nat n) (filter (\<lambda>a. id a \<notin> id ` set existing \<and> id a \<notin> id ` set rejected) raw)"
    by (simp add: finalArticlesToProcess_def articlesToProcess_filter jsSliceTo_def)
qed

text \<open>
  With no limit, one raw article already in the rejected cache and one new: only the new
  one is selected. With a limit of 1 and two new articles: only the first is.
\<close>

theorem finalArticlesToProcess_selection_witness:
  "finalArticlesToProcess None
     (articlesToProcess
        [sampleArticle (js ''1'') (js ''Vague post'') (js ''https://a.com/1'') (Stamp NOW),
         sampleArticle (js ''2'') (js ''AI wins'') (js ''https://a.com/2'') (Stamp NOW)]
        []
        [sampleArticle (js ''1'') (js ''Vague post'') (js ''https://a.com/1'') (Stamp NOW)])
     = [sampleArticle (js ''2'') (js ''AI wins'') (js ''https://a.com/2'') (Stamp NOW)] \<and>
   finalArticlesToProcess (Some 1)
     (articlesToProcess
        [sampleArticle (js ''1'') (js ''Vague post'') (js ''https://a.com/1'') (Stamp NOW),
         sampleArticle (js ''2'') (js ''AI wins'') (js ''https://a.com/2'') (Stamp NOW)]
        [] [])
     = [sampleArticle (js ''1'') (js ''Vague post'') (js ''https://a.com/1'') (Stamp NOW)]"
proof -
  let ?a = "sampleArticle (js ''1'') (js ''Vague post'') (js ''https://a.com/1'') (Stamp NOW)"
  let ?b = "sampleArticle (js ''2'') (js ''AI wins'') (js ''https://a.com/2'') (Stamp NOW)"
  have i: "id ?a = js ''1''" "id ?b = js ''2''"
    by (simp_all add: sampleArticle_def)
  have d: "js ''2'' \<noteq> js ''1''"
    by (simp add: js_def)
  note t1 = finalArticlesToProcess_selection [of None "[?a, ?b]" "[]" "[?a]" 1,
      THEN conjunct2, THEN conjunct2, THEN conjunct1]
  note t2 = finalArticlesToProcess_selection [of "Some 1" "[?a, ?b]" "[]" "[]" 1,
      THEN conjunct2, THEN conjunct2, THEN conjunct2]
  have "finalArticlesToProcess None (articlesToProcess [?a, ?b] [] [?a])
                  = filter (\<lambda>a. id a \<notin> id ` set ([]::Article list) \<and> id a \<notin> id ` set [?a]) [?a, ?b]"
    by (rule t1 [THEN mp]) simp
  with i d have r1: "finalArticlesToProcess None (articlesToProcess [?a, ?b] [] [?a]) = [?b]"
    by simp
  have "finalArticlesToProcess (Some 1) (articlesToProcess [?a, ?b] [] [])
                  = take (nat 1) (filter (\<lambda>a. id a \<notin> id ` set ([]::Article list) \<and> id a \<notin> id ` set ([]::Article list)) [?a, ?b])"
    by (rule t2 [THEN mp]) simp
  then have r2: "finalArticlesToProcess (Some 1) (articlesToProcess [?a, ?b] [] []) = [?a]"
    by simp
  from r1 r2 show ?thesis by simp
qed

text \<open>
  C7 as stated fails when \<open>PROCESSING_LIMIT\<close> is 1: the second raw article has an id that
  is in neither set, and it is not handed to the classification loop.
\<close>

theorem finalArticlesToProcess_limit_counterexample:
  "id (sampleArticle (js ''2'') (js ''AI wins'') (js ''https://a.com/2'') (Stamp NOW))
     \<notin> set (map id ([]::Article list)) \<and>
   sampleArticle (js ''2'') (js ''AI wins'') (js ''https://a.com/2'') (Stamp NOW)
     \<in> set [sampleArticle (js ''1'') (js ''Vague post'') (js ''https://a.com/1'') (Stamp NOW),
            sampleArticle (js ''2'') (js ''AI wins'') (js ''https://a.com/2'') (Stamp NOW)] \<and>
   sampleArticle (js ''2'') (js ''AI wins'') (js ''https://a.com/2'') (Stamp NOW)
     \<notin> set (finalArticlesToProcess (Some 1)
              (articlesToProcess
                 [sampleArticle (js ''1'') (js ''Vague post'') (js ''https://a.com/1'') (Stamp NOW),
                  sampleArticle (js ''2'') (js ''AI wins'') (js ''https://a.com/2'') (Stamp NOW)]
                 [] []))"
  by (simp add: finalArticlesToProcess_def articlesToProcess_def jsSliceTo_def sampleArticle_def
      js_def)

section \<open>Properties of the classification loop and of the run\<close>

lemma set_insertSorted: "set (insertSorted dateOf x ys) = insert x (set ys)"
  by (induction ys) auto

lemma set_foldl_insertSorted:
  "set (foldl (\<lambda>sorted x. insertSorted dateOf x sorted) acc xs) = set acc \<union> set xs"
  by (induction xs arbitrary: acc) (simp_all add: set_insertSorted)

lemma set_sortNewestFirst: "set (sortNewestFirst dateOf xs) = set xs"
  by (simp add: sortNewestFirst_def set_foldl_insertSorted)

text \<open>The two lists the loop builds, over the articles paired with their index.\<close>

lemma processLoop_enumerate:
  "processLoop analyse thr clock i xs (ps, rs) =
     (ps @ map (\<lambda>(j, a). processedArticleOf (analyse a) (clock j) a)
             (filter (\<lambda>(j, a). \<not> an_confidence (analyse a) < thr) (enumerate i xs)),
      rs @ map (\<lambda>(j, a). rejectedArticleOf thr (analyse a) (clock j) a)
             (filter (\<lambda>(j, a). an_confidence (analyse a) < thr) (enumerate i xs)))"
  by (induction xs arbitrary: i ps rs) (simp_all add: Let_def)

lemma processLoop_fst_mem:
  "p \<in> set (fst (processLoop analyse thr clock 0 xs ([], []))) \<longleftrightarrow>
     (\<exists>j < length xs. \<not> an_confidence (analyse (xs ! j)) < thr \<and>
        p = processedArticleOf (analyse (xs ! j)) (clock j) (xs ! j))"
  by (force simp: processLoop_enumerate in_set_enumerate_eq image_iff)

lemma processLoop_snd_mem:
  "p \<in> set (snd (processLoop analyse thr clock 0 xs ([], []))) \<longleftrightarrow>
     (\<exists>j < length xs. an_confidence (analyse (xs ! j)) < thr \<and>
        p = rejectedArticleOf thr (analyse (xs ! j)) (clock j) (xs ! j))"
  by (force simp: processLoop_enumerate in_set_enumerate_eq image_iff)

lemma processedArticleOf_id [simp]: "id (processedArticleOf r t a) = id a"
  by (simp add: processedArticleOf_def)

lemma processedArticleOf_confidence [simp]:
  "confidence (processedArticleOf r t a) = Some (an_confidence r)"
  by (simp add: processedArticleOf_def)

lemma processedArticleOf_publishedDate [simp]:
  "publishedDate (processedArticleOf r t a) = publishedDate a"
  by (simp add: processedArticleOf_def publishedDate_def)

lemma submitted_ids:
  assumes "a \<in> set (submitted env fs)"
  shows "id a \<notin> id ` set (readOrEmpty (processedFile fs))"
proof (cases "rawFile fs")
  case (Inl e)
  with assms show ?thesis by (simp add: submitted_def)
next
  case (Inr raw)
  with assms have "a \<in> set (finalArticlesToProcess (PROCESSING_LIMIT env)
                     (articlesToProcess raw (readOrEmpty (processedFile fs))
                        (readOrEmpty (rejectedFile fs))))"
    by (simp add: submitted_def)
  then have "a \<in> set (articlesToProcess raw (readOrEmpty (processedFile fs))
                        (readOrEmpty (rejectedFile fs)))"
    using finalArticlesToProcess_prefix set_mono_prefix by blast
  then show ?thesis by (simp add: articlesToProcess_filter)
qed

text \<open>What a run that classifies something returns and writes when no write fails.\<close>

lemma saveSnapshots_ok:
  assumes "writeError fs LatestProcessed = None" and "writeError fs DailyProcessed = None"
  shows "saveSnapshots fs l d [] = ([(LatestProcessed, LatestDoc l), (DailyProcessed, DailyDoc d)], Inr ())"
  using assms by (simp add: saveSnapshots_def writeFile_def)

lemma processingBranch_ok:
  assumes "writeError fs LatestProcessed = None" and "writeError fs DailyProcessed = None"
    and "writeError fs RejectedArticles = None"
  shows "\<exists>latestData.
           returned (processingBranch env clk analyse useAI fs existing rejected final)
             = Inr latestData \<and>
           articles latestData =
             articles (rollingCleanup (tCleanup clk)
               (sortNewestFirst publishedDate
                  (existing @ fst (processLoop analyse (PROCESS_CONFIDENCE_THRESHOLD env)
                                     (tArticle clk) 0 final ([], []))))) \<and>
           (snd (processLoop analyse (PROCESS_CONFIDENCE_THRESHOLD env) (tArticle clk) 0 final ([], []))
              \<noteq> [] \<longrightarrow>
            (RejectedArticles,
             RejectedDoc (rejectedCache env clk rejected
               (snd (processLoop analyse (PROCESS_CONFIDENCE_THRESHOLD env)
                       (tArticle clk) 0 final ([], [])))))
              \<in> set (written (processingBranch env clk analyse useAI fs existing rejected final)))"
  using assms
  by (simp add: processingBranch_def Let_def saveSnapshots_ok writeFile_def)

lemma run_is_processingBranch:
  assumes "rawFile fs = Inr raw" and "submitted env fs \<noteq> []"
  shows "processArticlesWithAI env clk analyse useAI fs =
           processingBranch env clk analyse useAI fs (readOrEmpty (processedFile fs))
             (readOrEmpty (rejectedFile fs)) (submitted env fs)"
  using assms by (simp add: processArticlesWithAI_def submitted_def Let_def)

lemma rejectedCache_mem:
  "p \<in> set (rejected_articles (rejectedCache env clk old new)) \<longleftrightarrow>
     (p \<in> set old \<or> p \<in> set new) \<and>
     (\<exists>t. newDate (rejected_at p) = Some t \<and>
          tRejectedCleanup clk - REJECTED_CACHE_CLEANUP_DAYS env * DAY_MS < t)"
  by (auto simp: rejectedCache_def Let_def split: option.splits)

text \<open>
  C6 as the code has it. In a run whose writes succeed, let \<open>a\<close> be the \<open>j\<close>-th article
  handed to the classification loop, \<open>r\<close> its classification and \<open>thr\<close> the threshold.
  If the confidence is strictly below \<open>thr\<close>, no processed form of \<open>a\<close> is in the
  latest-processed snapshot (and whatever the snapshot holds under the id of \<open>a\<close> carries
  a confidence of at least \<open>thr\<close>), and the record built from \<open>a\<close> with
  \<open>rejectedReason = "low_confidence"\<close>, the confidence, the threshold and the
  \<open>rejected_at\<close> stamp is in the rejected cache that the run writes (the rejection being
  newer than the clean-up window of the cache). If the confidence is at least \<open>thr\<close>,
  the processed form of \<open>a\<close> is in the snapshot exactly when the publication date of \<open>a\<close>
  lies within the 15-day rolling window.
\<close>

theorem confidence_threshold_routing:
  assumes "rawFile fs = Inr raw"
    and "writeError fs LatestProcessed = None"
    and "writeError fs DailyProcessed = None"
    and "writeError fs RejectedArticles = None"
    and "j < length (submitted env fs)"
    and "a = submitted env fs ! j"
    and "r = analyse a"
    and "thr = PROCESS_CONFIDENCE_THRESHOLD env"
  shows "\<exists>latestData.
           returned (processArticlesWithAI env clk analyse useAI fs) = Inr latestData \<and>
           (an_confidence r < thr \<longrightarrow>
              (\<forall>t. processedArticleOf r t a \<notin> set (articles latestData)) \<and>
              (\<forall>p \<in> set (articles latestData).
                 id p = id a \<longrightarrow> (\<exists>c. confidence p = Some c \<and> thr \<le> c)) \<and>
              rejectedReason (rejectedArticleOf thr r (tArticle clk j) a) = Some (js ''low_confidence'') \<and>
              confidence (rejectedArticleOf thr r (tArticle clk j) a) = Some (an_confidence r) \<and>
              confidenceThreshold (rejectedArticleOf thr r (tArticle clk j) a) = Some thr \<and>
              rejected_at (rejectedArticleOf thr r (tArticle clk j) a) = Stamp (tArticle clk j) \<and>
              (tRejectedCleanup clk - REJECTED_CACHE_CLEANUP_DAYS env * DAY_MS < tArticle clk j \<longrightarrow>
                 (\<exists>rd. (RejectedArticles, RejectedDoc rd)
                         \<in> set (written (processArticlesWithAI env clk analyse useAI fs)) \<and>
                       rejectedArticleOf thr r (tArticle clk j) a \<in> set (rejected_articles rd)))) \<and>
           (thr \<le> an_confidence r \<longrightarrow>
              (processedArticleOf r (tArticle clk j) a \<in> set (articles latestData) \<longleftrightarrow>
                 (\<exists>t. publishedDate a = Some t \<and> tCleanup clk - 15 * DAY_MS < t)))"
proof -
  let ?final = "submitted env fs"
  let ?existing = "readOrEmpty (processedFile fs)"
  let ?rejected = "readOrEmpty (rejectedFile fs)"
  let ?loop = "processLoop analyse thr (tArticle clk) 0 ?final ([], [])"
  let ?run = "processArticlesWithAI env clk analyse useAI fs"
  from assms(5) have ne: "?final \<noteq> []" by auto
  from assms(5,6) have mem: "a \<in> set ?final" by simp
  have run: "?run = processingBranch env clk analyse useAI fs ?existing ?rejected ?final"
    using assms(1) ne by (rule run_is_processingBranch)
  from processingBranch_ok [OF assms(2,3,4), of env clk analyse useAI ?existing ?rejected ?final]
  obtain latestData where ret: "returned ?run = Inr latestData"
    and arts: "articles latestData =
                 articles (rollingCleanup (tCleanup clk)
                   (sortNewestFirst publishedDate (?existing @ fst ?loop)))"
    and rej: "snd ?loop \<noteq> [] \<longrightarrow>
                (RejectedArticles, RejectedDoc (rejectedCache env clk ?rejected (snd ?loop)))
                  \<in> set (written ?run)"
    unfolding run assms(8) by blast
  have inSnap: "p \<in> set (articles latestData) \<longleftrightarrow>
                  (p \<in> set ?existing \<or> p \<in> set (fst ?loop)) \<and>
                  (\<exists>t. publishedDate p = Some t \<and> tCleanup clk - 15 * DAY_MS < t)" for p
    by (simp add: arts rollingCleanup_mem set_sortNewestFirst)
  have notExisting: "processedArticleOf r t a \<notin> set ?existing" for t
  proof
    assume "processedArticleOf r t a \<in> set ?existing"
    then have "id (processedArticleOf r t a) \<in> id ` set ?existing" by (rule imageI)
    with submitted_ids [OF mem] show False by simp
  qed
  have low: "\<forall>t. processedArticleOf r t a \<notin> set (articles latestData)"
    if c: "an_confidence r < thr"
  proof (intro allI notI)
    fix t
    assume "processedArticleOf r t a \<in> set (articles latestData)"
    with inSnap notExisting have "processedArticleOf r t a \<in> set (fst ?loop)" by blast
    then obtain k where k: "\<not> an_confidence (analyse (?final ! k)) < thr"
        and e: "processedArticleOf r t a
                  = processedArticleOf (analyse (?final ! k)) (tArticle clk k) (?final ! k)"
      by (auto simp: processLoop_fst_mem)
    from e have "confidence (processedArticleOf r t a)
                   = confidence (processedArticleOf (analyse (?final ! k)) (tArticle clk k) (?final ! k))"
      by simp
    then have "an_confidence r = an_confidence (analyse (?final ! k))" by simp
    with k c show False by simp
  qed
  have sameId: "\<forall>p \<in> set (articles latestData).
                  id p = id a \<longrightarrow> (\<exists>c. confidence p = Some c \<and> thr \<le> c)"
  proof (intro ballI impI)
    fix p
    assume p: "p \<in> set (articles latestData)" and i: "id p = id a"
    have "p \<notin> set ?existing"
    proof
      assume "p \<in> set ?existing"
      then have "id p \<in> id ` set ?existing" by (rule imageI)
      with submitted_ids [OF mem] i show False by simp
    qed
    with p inSnap have "p \<in> set (fst ?loop)" by blast
    then obtain k where "\<not> an_confidence (analyse (?final ! k)) < thr"
        and "p = processedArticleOf (analyse (?final ! k)) (tArticle clk k) (?final ! k)"
      by (auto simp: processLoop_fst_mem)
    then show "\<exists>c. confidence p = Some c \<and> thr \<le> c" by simp
  qed
  have cache: "\<exists>rd. (RejectedArticles, RejectedDoc rd) \<in> set (written ?run) \<and>
                 rejectedArticleOf thr r (tArticle clk j) a \<in> set (rejected_articles rd)"
    if c: "an_confidence r < thr"
      and w: "tRejectedCleanup clk - REJECTED_CACHE_CLEANUP_DAYS env * DAY_MS < tArticle clk j"
  proof -
    from c assms(5,6,7) have m: "rejectedArticleOf thr r (tArticle clk j) a \<in> set (snd ?loop)"
      by (auto simp: processLoop_snd_mem)
    then have "snd ?loop \<noteq> []" by auto
    with rej have "(RejectedArticles, RejectedDoc (rejectedCache env clk ?rejected (snd ?loop)))
                     \<in> set (written ?run)"
      by simp
    moreover from m w have "rejectedArticleOf thr r (tArticle clk j) a
                     \<in> set (rejected_articles (rejectedCache env clk ?rejected (snd ?loop)))"
      by (simp add: rejectedCache_mem rejectedArticleOf_def newDate_def)
    ultimately show ?thesis by blast
  qed
  have high: "processedArticleOf r (tArticle clk j) a \<in> set (articles latestData) \<longleftrightarrow>
                (\<exists>t. publishedDate a = Some t \<and> tCleanup clk - 15 * DAY_MS < t)"
    if c: "thr \<le> an_confidence r"
  proof -
    from c assms(5,6,7) have "processedArticleOf r (tArticle clk j) a \<in> set (fst ?loop)"
      by (auto simp: processLoop_fst_mem)
    then show ?thesis by (simp add: inSnap)
  qed
  have fields:
    "rejectedReason (rejectedArticleOf thr r (tArticle clk j) a) = Some (js ''low_confidence'')"
    "confidence (rejectedArticleOf thr r (tArticle clk j) a) = Some (an_confidence r)"
    "confidenceThreshold (rejectedArticleOf thr r (tArticle clk j) a) = Some thr"
    "rejected_at (rejectedArticleOf thr r (tArticle clk j) a) = Stamp (tArticle clk j)"
    by (simp_all add: rejectedArticleOf_def)
  from ret low sameId cache high fields show ?thesis by blast
qed

theorem confidence_threshold_routing_witness:
  "\<exists>latestData.
     returned (processArticlesWithAI defaultEnv sampleRunClock sampleAnalyse False
                 (sampleFiles
                    [sampleArticle (js ''1'') (js ''Vague post'') (js ''https://a.com/1'')
                       (Stamp (NOW - DAY_MS)),
                     sampleArticle (js ''2'') (js ''AI wins'') (js ''https://a.com/2'')
                       (Stamp (NOW - DAY_MS))]))
       = Inr latestData \<and>
     an_confidence (sampleAnalyse (sampleArticle (js ''1'') (js ''Vague post'')
                      (js ''https://a.com/1'') (Stamp (NOW - DAY_MS)))) < 0.25 \<and>
     (\<forall>t. processedArticleOf
             (sampleAnalyse (sampleArticle (js ''1'') (js ''Vague post'') (js ''https://a.com/1'')
                (Stamp (NOW - DAY_MS)))) t
             (sampleArticle (js ''1'') (js ''Vague post'') (js ''https://a.com/1'')
                (Stamp (NOW - DAY_MS)))
           \<notin> set (articles latestData)) \<and>
     (\<exists>rd. (RejectedArticles, RejectedDoc rd)
             \<in> set (written (processArticlesWithAI defaultEnv sampleRunClock sampleAnalyse False
                 (sampleFiles
                    [sampleArticle (js ''1'') (js ''Vague post'') (js ''https://a.com/1'')
                       (Stamp (NOW - DAY_MS)),
                     sampleArticle (js ''2'') (js ''AI wins'') (js ''https://a.com/2'')
                       (Stamp (NOW - DAY_MS))]))) \<and>
           rejectedArticleOf 0.25
             (sampleAnalyse (sampleArticle (js ''1'') (js ''Vague post'') (js ''https://a.com/1'')
                (Stamp (NOW - DAY_MS))))
             (tArticle sampleRunClock 0)
             (sampleArticle (js ''1'') (js ''Vague post'') (js ''https://a.com/1'')
                (Stamp (NOW - DAY_MS)))
           \<in> set (rejected_articles rd)) \<and>
     0.25 \<le> an_confidence (sampleAnalyse (sampleArticle (js ''2'') (js ''AI wins'')
                      (js ''https://a.com/2'') (Stamp (NOW - DAY_MS)))) \<and>
     processedArticleOf
       (sampleAnalyse (sampleArticle (js ''2'') (js ''AI wins'') (js ''https://a.com/2'')
          (Stamp (NOW - DAY_MS))))
       (tArticle sampleRunClock 1)
       (sampleArticle (js ''2'') (js ''AI wins'') (js ''https://a.com/2'') (Stamp (NOW - DAY_MS)))
     \<in> set (articles latestData)"
proof -
  let ?v = "sampleArticle (js ''1'') (js ''Vague post'') (js ''https://a.com/1'') (Stamp (NOW - DAY_MS))"
  let ?g = "sampleArticle (js ''2'') (js ''AI wins'') (js ''https://a.com/2'') (Stamp (NOW - DAY_MS))"
  let ?fs = "sampleFiles [?v, ?g]"
  let ?run = "processArticlesWithAI defaultEnv sampleRunClock sampleAnalyse False ?fs"
  have raw: "rawFile ?fs = Inr [?v, ?g]"
    by (simp add: sampleFiles_def)
  have w: "writeError ?fs LatestProcessed = None" "writeError ?fs DailyProcessed = None"
      "writeError ?fs RejectedArticles = None"
    by (simp_all add: sampleFiles_def)
  have sub: "submitted defaultEnv ?fs = [?v, ?g]"
    by (simp add: submitted_def sampleFiles_def readOrEmpty_def articlesToProcess_def
        finalArticlesToProcess_def defaultEnv_def)
  have thr: "0.25 = PROCESS_CONFIDENCE_THRESHOLD defaultEnv"
    by (simp add: defaultEnv_def)
  have cv: "an_confidence (sampleAnalyse ?v) < 0.25"
    by (simp add: sampleAnalyse_def sampleArticle_def)
  have cg: "0.25 \<le> an_confidence (sampleAnalyse ?g)"
    by (simp add: sampleAnalyse_def sampleArticle_def js_def)
  have j0: "0 < length (submitted defaultEnv ?fs)" "?v = submitted defaultEnv ?fs ! 0"
    by (simp_all add: sub)
  have j1: "1 < length (submitted defaultEnv ?fs)" "?g = submitted defaultEnv ?fs ! 1"
    by (simp_all add: sub)
  have win: "tRejectedCleanup sampleRunClock - REJECTED_CACHE_CLEANUP_DAYS defaultEnv * DAY_MS
               < tArticle sampleRunClock 0"
    by (simp add: sampleRunClock_def defaultEnv_def DAY_MS_def)
  have pub: "\<exists>t. publishedDate ?g = Some t \<and> tCleanup sampleRunClock - 15 * DAY_MS < t"
    by (simp add: publishedDate_def orDate_def truthyDate_def newDate_def sampleArticle_def
        sampleRunClock_def NOW_def DAY_MS_def)
  from confidence_threshold_routing [where clk = sampleRunClock and useAI = False
      and analyse = sampleAnalyse, OF raw w j0 refl thr] cv win
  obtain l0 where r0: "returned ?run = Inr l0"
    and o0: "\<forall>t. processedArticleOf (sampleAnalyse ?v) t ?v \<notin> set (articles l0)"
    and c0: "\<exists>rd. (RejectedArticles, RejectedDoc rd) \<in> set (written ?run) \<and>
               rejectedArticleOf 0.25 (sampleAnalyse ?v) (tArticle sampleRunClock 0) ?v
                 \<in> set (rejected_articles rd)"
    by blast
  from confidence_threshold_routing [where clk = sampleRunClock and useAI = False
      and analyse = sampleAnalyse, OF raw w j1 refl thr] cg pub
  obtain l1 where r1: "returned ?run = Inr l1"
    and i1: "processedArticleOf (sampleAnalyse ?g) (tArticle sampleRunClock 1) ?g
               \<in> set (articles l1)"
    by blast
  from r0 r1 have "l1 = l0" by simp
  with r0 o0 c0 i1 cv cg show ?thesis by blast
qed

text \<open>
  C6 as stated fails for an article dated 16 days before the run: its confidence 0.6 is
  above the threshold 0.25, it is classified, and the latest-processed snapshot that the
  run returns holds no article at all.
\<close>

theorem confidence_threshold_counterexample:
  "PROCESS_CONFIDENCE_THRESHOLD defaultEnv
     \<le> an_confidence (sampleAnalyse (sampleArticle (js ''3'') (js ''Old news'')
                         (js ''https://a.com/3'') (Stamp (NOW - 16 * DAY_MS)))) \<and>
   submitted defaultEnv
     (sampleFiles [sampleArticle (js ''3'') (js ''Old news'') (js ''https://a.com/3'')
                     (Stamp (NOW - 16 * DAY_MS))])
     = [sampleArticle (js ''3'') (js ''Old news'') (js ''https://a.com/3'')
          (Stamp (NOW - 16 * DAY_MS))] \<and>
   snapshotArticles
     (processArticlesWithAI defaultEnv sampleRunClock sampleAnalyse False
        (sampleFiles [sampleArticle (js ''3'') (js ''Old news'') (js ''https://a.com/3'')
                        (Stamp (NOW - 16 * DAY_MS))]))
     = Some []"
proof -
  let ?o = "sampleArticle (js ''3'') (js ''Old news'') (js ''https://a.com/3'') (Stamp (NOW - 16 * DAY_MS))"
  let ?fs = "sampleFiles [?o]"
  let ?run = "processArticlesWithAI defaultEnv sampleRunClock sampleAnalyse False ?fs"
  have raw: "rawFile ?fs = Inr [?o]"
    by (simp add: sampleFiles_def)
  have w: "writeError ?fs LatestProcessed = None" "writeError ?fs DailyProcessed = None"
      "writeError ?fs RejectedArticles = None"
    by (simp_all add: sampleFiles_def)
  have sub: "submitted defaultEnv ?fs = [?o]"
    by (simp add: submitted_def sampleFiles_def readOrEmpty_def articlesToProcess_def
        finalArticlesToProcess_def defaultEnv_def)
  have c: "PROCESS_CONFIDENCE_THRESHOLD defaultEnv \<le> an_confidence (sampleAnalyse ?o)"
    by (simp add: sampleAnalyse_def sampleArticle_def defaultEnv_def js_def)
  have run: "?run = processingBranch defaultEnv sampleRunClock sampleAnalyse False ?fs
                      (readOrEmpty (processedFile ?fs)) (readOrEmpty (rejectedFile ?fs)) [?o]"
    using run_is_processingBranch [where env = defaultEnv and clk = sampleRunClock
        and analyse = sampleAnalyse and useAI = False, OF raw]
    by (simp add: sub)
  from processingBranch_ok [where env = defaultEnv and clk = sampleRunClock
      and analyse = sampleAnalyse and useAI = False
      and existing = "readOrEmpty (processedFile ?fs)"
      and rejected = "readOrEmpty (rejectedFile ?fs)" and final = "[?o]", OF w]
  obtain l where r: "returned ?run = Inr l"
    and a: "articles l =
              articles (rollingCleanup (tCleanup sampleRunClock)
                (sortNewestFirst publishedDate
                   (readOrEmpty (processedFile ?fs) @
                    fst (processLoop sampleAnalyse (PROCESS_CONFIDENCE_THRESHOLD defaultEnv)
                           (tArticle sampleRunClock) 0 [?o] ([], [])))))"
    unfolding run by blast
  have old: "\<not> (\<exists>t. publishedDate ?o = Some t \<and> tCleanup sampleRunClock - 15 * DAY_MS < t)"
    by (simp add: publishedDate_def orDate_def truthyDate_def newDate_def sampleArticle_def
        sampleRunClock_def NOW_def DAY_MS_def)
  have "p \<notin> set (articles l)" for p
  proof
    assume p: "p \<in> set (articles l)"
    then have d: "\<exists>t. publishedDate p = Some t \<and> tCleanup sampleRunClock - 15 * DAY_MS < t"
      by (simp add: a rollingCleanup_mem)
    from p have "p \<in> set (readOrEmpty (processedFile ?fs)) \<or>
                 p \<in> set (fst (processLoop sampleAnalyse (PROCESS_CONFIDENCE_THRESHOLD defaultEnv)
                                  (tArticle sampleRunClock) 0 [?o] ([], [])))"
      by (simp add: a rollingCleanup_mem set_sortNewestFirst)
    then have "\<exists>t. p = processedArticleOf (sampleAnalyse ?o) t ?o"
      by (auto simp: sampleFiles_def readOrEmpty_def processLoop_fst_mem
          simp del: processLoop.simps)
    with d old show False by auto
  qed
  then have "articles l = []" by (cases "articles l") auto
  with r c sub show ?thesis by (simp add: snapshotArticles_def)
qed

section \<open>Write failures and the exit status\<close>

lemma saveSnapshots_latest_fails:
  "writeError fs LatestProcessed = Some e \<Longrightarrow> saveSnapshots fs l d disk = (disk, Inl e)"
  by (simp add: saveSnapshots_def writeFile_def)

lemma processArticlesWithAI_write_failure:
  assumes "rawFile fs = Inr raw" and "writeError fs LatestProcessed = Some e"
  shows "returned (processArticlesWithAI env clk analyse useAI fs) = Inl e"
  using assms
  by (simp add: processArticlesWithAI_def cachedBranch_def processingBranch_def Let_def
      saveSnapshots_latest_fails)

lemma processMain_exitCode: "exitCode (processMain env clk analyse useAI fs) = 0"
  by (simp add: processMain_def split: sum.splits)

lemma crawlMain_write_failure:
  assumes "sourcesFile = Inr sources" and "mkdirError = None"
    and "werr LatestRaw = Some e"
  shows "crawlMain lower relevant hostnameOf sourcesFile feeds mkdirError werr
           = \<lparr> consoleError = [e], exitCode = 1 \<rparr>"
  using assms by (simp add: crawlMain_def crawlAllSources_def Let_def writeFile_def)

text \<open>
  C8 at a run whose write of \<open>latest-processed.json\<close> fails with \<open>EACCES\<close>. The error
  comes out of \<open>processArticlesWithAI\<close> and is logged, and the process ends with exit
  code 0; the entry point of the crawler, on the failed write of \<open>latest-raw.json\<close>, ends
  with exit code 1.
\<close>

theorem processMain_exits_zero_on_write_failure:
  "returned (processArticlesWithAI defaultEnv sampleRunClock sampleAnalyse False
               (failingFiles [sampleArticle (js ''2'') (js ''AI wins'') (js ''https://a.com/2'')
                                (Stamp NOW)]))
     = Inl (Error (js ''EACCES'')) \<and>
   processMain defaultEnv sampleRunClock sampleAnalyse False
     (failingFiles [sampleArticle (js ''2'') (js ''AI wins'') (js ''https://a.com/2'') (Stamp NOW)])
     = \<lparr> consoleError = [Error (js ''EACCES'')], exitCode = 0 \<rparr> \<and>
   crawlMain toLowerCaseASCII (\<lambda>s t d. True) sampleHostnameOf (Inr [sampleSource])
     (\<lambda>s. Some [(sampleClock, futureItem)]) None
     (\<lambda>p. if p = LatestRaw then Some (Error (js ''EACCES'')) else None)
     = \<lparr> consoleError = [Error (js ''EACCES'')], exitCode = 1 \<rparr>"
proof -
  let ?fs = "failingFiles [sampleArticle (js ''2'') (js ''AI wins'') (js ''https://a.com/2'') (Stamp NOW)]"
  have "rawFile ?fs = Inr [sampleArticle (js ''2'') (js ''AI wins'') (js ''https://a.com/2'') (Stamp NOW)]"
    and "writeError ?fs LatestProcessed = Some (Error (js ''EACCES''))"
    by (simp_all add: failingFiles_def)
  then have r: "returned (processArticlesWithAI defaultEnv sampleRunClock sampleAnalyse False ?fs)
                  = Inl (Error (js ''EACCES''))"
    by (rule processArticlesWithAI_write_failure)
  then have m: "processMain defaultEnv sampleRunClock sampleAnalyse False ?fs
                  = \<lparr> consoleError = [Error (js ''EACCES'')], exitCode = 0 \<rparr>"
    by (simp add: processMain_def)
  have c: "crawlMain toLowerCaseASCII (\<lambda>s t d. True) sampleHostnameOf (Inr [sampleSource])
             (\<lambda>s. Some [(sampleClock, futureItem)]) None
             (\<lambda>p. if p = LatestRaw then Some (Error (js ''EACCES'')) else None)
           = \<lparr> consoleError = [Error (js ''EACCES'')], exitCode = 1 \<rparr>"
    by (rule crawlMain_write_failure) simp_all
  from r m c show ?thesis by simp
qed


end
